theory Spec2Isabelle
  imports Main "HOL-Library.Word" "HOL-Library.AList"
begin

section \<open>Graph query options of the driver: lib/datastax/graph/options.js\<close>

text \<open>
  The module merges three layers of options for one graph query: the options of the
  call, the defaults of the execution profile and the base options of the client. The
  result carries a custom payload, a map from wire keys to buffers.

  JavaScript has two "no value" values, and the code tells them apart, so every
  optional property is tri-state. Properties are typed as the JSDoc of the module types
  them: strings, numbers (whole numbers here: consistency codes and milliseconds) and
  object references.
\<close>

subsection \<open>Values\<close>

datatype 'a js = Undefined | Null | Val 'a

text \<open>Truthiness: the empty string is falsy, every object is truthy.\<close>

fun truthyString :: "string js \<Rightarrow> bool" where
  "truthyString (Val s) = (s \<noteq> [])"
| "truthyString _ = False"

fun truthyObject :: "'a js \<Rightarrow> bool" where
  "truthyObject (Val _) = True"
| "truthyObject _ = False"

text \<open>The operator \<open>a || b\<close>, with the truthiness of the type of \<open>a\<close>.\<close>

definition logicalOr :: "('a js \<Rightarrow> bool) \<Rightarrow> 'a js \<Rightarrow> 'a js \<Rightarrow> 'a js" where
  "logicalOr truthy a b = (if truthy a then a else b)"

text \<open>The comparison \<open>x > 0\<close> on a number that may be missing: \<open>null\<close> converts to 0 and
  \<open>undefined\<close> to NaN, so both compare false.\<close>

fun greaterThanZero :: "int js \<Rightarrow> bool" where
  "greaterThanZero (Val n) = (0 < n)"
| "greaterThanZero _ = False"

subsection \<open>Data\<close>

type_synonym buffer = "8 word list"

text \<open>A payload object keeps its keys in insertion order, as \<open>AList.update\<close> does.\<close>

type_synonym payload = "(string \<times> buffer) list"

type_synonym ref = nat

datatype retryPolicy = RetryPolicy nat

text \<open>
  The options object of a call (\<open>GraphQueryOptions\<close>), which is also the shape of the
  default options cached for a profile. \<open>customPayload\<close> is a reference to a payload
  object in the store. \<open>otherOptions\<close> stands for the properties this module never reads.
\<close>

record graphQueryOptions =
  executionProfile :: "string js"
  customPayload :: "ref js"
  graphLanguage :: "string js"
  graphSource :: "string js"
  executeAs :: "string js"
  graphName :: "string js"
  graphReadConsistency :: "int js"
  graphWriteConsistency :: "int js"
  readTimeout :: "int js"
  retry :: "retryPolicy js"
  otherOptions :: "(string \<times> nat) list"

text \<open>What a caller passes as options: nothing, \<open>null\<close>, a callback, or an object.\<close>

datatype optionsArg = ArgUndefined | ArgNull | ArgFunction | ArgObject graphQueryOptions

text \<open>The graph options of a profile, and the base options of the client that extend them.\<close>

record profileGraphOptions =
  language :: "string js"
  source :: "string js"
  name :: "string js"
  readConsistency :: "int js"
  writeConsistency :: "int js"

record baseGraphOptions = profileGraphOptions +
  base_executeAs :: "string js"
  base_retry :: "retryPolicy js"
  base_readTimeout :: "int js"

text \<open>An execution profile; \<open>ident\<close> is the identity of the object, which \<open>!==\<close> compares.\<close>

record profile =
  ident :: nat
  profile_graphOptions :: "profileGraphOptions js"
  profile_retry :: "retryPolicy js"
  profile_readTimeout :: "int js"

text \<open>
  The profile manager is outside this module. Its two lookups are taken as they come:
  \<open>getProfile\<close> answers \<open>None\<close> where the manager returns \<open>undefined\<close>.
\<close>

record profileManager =
  getProfile :: "string js \<Rightarrow> profile option"
  getDefault :: profile

text \<open>
  What the module requires from other modules: the key \<open>proxyExecuteKey\<close> of
  execution-options and the table \<open>types.consistencies\<close> (property name, code), in the
  order of its keys.
\<close>

record env =
  proxyExecuteKey :: string
  consistencies :: "(string \<times> int) list"

datatype error = UnknownConsistencyLevel int | TypeError

text \<open>
  The mutable state: the module variable \<open>consistencyNames\<close> (\<open>None\<close> until it is
  loaded; its keys are property keys, so \<open>undefined\<close> can be one), the slot of the profile
  manager that caches the default options of each profile, and the store of payload
  objects with the next free reference.
\<close>

record state =
  consistencyNames :: "(int js \<times> string) list option"
  graphOptionsCache :: "nat \<rightharpoonup> graphQueryOptions"
  payloads :: "ref \<Rightarrow> payload"
  nextRef :: ref

subsection \<open>Computations that may throw\<close>

type_synonym 'a action = "state \<Rightarrow> (error + 'a) \<times> state"

definition ret :: "'a \<Rightarrow> 'a action" where
  "ret x s = (Inr x, s)"

definition throw :: "error \<Rightarrow> 'a action" where
  "throw e s = (Inl e, s)"

definition bind :: "'a action \<Rightarrow> ('a \<Rightarrow> 'b action) \<Rightarrow> 'b action" where
  "bind f g s = (case f s of (Inl e, s') \<Rightarrow> (Inl e, s') | (Inr x, s') \<Rightarrow> g x s')"

text \<open>Creating a payload object, and the assignment \<open>object[key] = buffer\<close>.\<close>

definition newPayload :: "payload \<Rightarrow> ref action" where
  "newPayload p s =
     (Inr (nextRef s), s\<lparr>payloads := (payloads s)(nextRef s := p), nextRef := Suc (nextRef s)\<rparr>)"

definition setKey :: "ref \<Rightarrow> string \<Rightarrow> buffer \<Rightarrow> unit action" where
  "setKey a key b s = (Inr (), s\<lparr>payloads := (payloads s)(a := AList.update key b (payloads s a))\<rparr>)"

text \<open>A shallow clone of a payload object, \<open>utils.extend({}, payload)\<close>: a new object with the
  same entries.\<close>

definition clonePayload :: "ref \<Rightarrow> ref action" where
  "clonePayload u s = newPayload (payloads s u) s"

subsection \<open>Helpers of utils and types\<close>

text \<open>
  Modelled from the spec: \<open>utils.allocBufferFromString\<close> is outside the sources at hand;
  "strings encode to their raw bytes". A value that is not a string has no bytes and is
  rejected with a TypeError.
\<close>

definition stringBytes :: "string \<Rightarrow> buffer" where
  "stringBytes s = map of_char s"

fun allocBufferFromString :: "string js \<Rightarrow> buffer action" where
  "allocBufferFromString (Val s) = ret (stringBytes s)"
| "allocBufferFromString _ = throw TypeError"

text \<open>
  Modelled from the spec: \<open>utils.ifUndefined\<close> and \<open>utils.ifUndefined3\<close> are outside the
  sources at hand; the first value that is not \<open>undefined\<close> wins ("profile's own
  readTimeout, else the default profile's readTimeout, else baseOptions.readTimeout").
\<close>

definition ifUndefined :: "'a js \<Rightarrow> 'a js \<Rightarrow> 'a js" where
  "ifUndefined v1 v2 = (if v1 \<noteq> Undefined then v1 else v2)"

definition ifUndefined3 :: "'a js \<Rightarrow> 'a js \<Rightarrow> 'a js \<Rightarrow> 'a js" where
  "ifUndefined3 v1 v2 v3 = (if v1 \<noteq> Undefined then v1 else if v2 \<noteq> Undefined then v2 else v3)"

definition emptyObject :: profileGraphOptions where
  "emptyObject = \<lparr>language = Undefined, source = Undefined, name = Undefined,
     readConsistency = Undefined, writeConsistency = Undefined\<rparr>"

text \<open>
  Modelled from the spec: \<open>Long.fromNumber\<close> and \<open>Long.toBuffer\<close> of types are outside
  the sources at hand; the value "encodes as a big-endian 8-byte two's-complement
  integer".
\<close>

definition Long_fromNumber :: "int \<Rightarrow> 64 word" where
  "Long_fromNumber n = word_of_int n"

definition Long_toBuffer :: "64 word \<Rightarrow> buffer" where
  "Long_toBuffer w = map (\<lambda>i. ucast (drop_bit (8 * i) w)) [7, 6, 5, 4, 3, 2, 1, 0]"

definition longBuffer :: "int \<Rightarrow> buffer" where
  "longBuffer v = Long_toBuffer (Long_fromNumber v)"

text \<open>Reading a buffer back as a signed 64-bit integer, big end first.\<close>

definition readInt64BE :: "buffer \<Rightarrow> int" where
  "readInt64BE b = sint (word_rcat b :: 64 word)"

text \<open>\<open>toUpperCase\<close> on the ASCII letters of a property name: a small letter (codes 97 to
  122) loses bit 5.\<close>

definition upperChar :: "char \<Rightarrow> char" where
  "upperChar c =
     (if 97 \<le> (of_char c :: nat) \<and> (of_char c :: nat) \<le> 122
      then (case c of Char b0 b1 b2 b3 b4 b5 b6 b7 \<Rightarrow> Char b0 b1 b2 b3 b4 False b6 b7)
      else c)"

definition toUpperCase :: "string \<Rightarrow> string" where
  "toUpperCase s = map upperChar s"

subsection \<open>The consistency names\<close>

text \<open>A property of \<open>types.consistencies\<close>: \<open>undefined\<close> when the table has no such name.\<close>

definition consistencyCode :: "env \<Rightarrow> string \<Rightarrow> int js" where
  "consistencyCode e n = (case map_of (consistencies e) n of None \<Rightarrow> Undefined | Some c \<Rightarrow> Val c)"

text \<open>The loop of \<open>loadConsistencyNames\<close> over the property names.\<close>

fun loadLoop :: "env \<Rightarrow> string list \<Rightarrow> (int js \<times> string) list \<Rightarrow> (int js \<times> string) list" where
  "loadLoop e [] names = names"
| "loadLoop e (n # propertyNames) names =
     loadLoop e propertyNames (AList.update (consistencyCode e n) (toUpperCase n) names)"

definition loadedNames :: "env \<Rightarrow> (int js \<times> string) list" where
  "loadedNames e =
     AList.update (consistencyCode e ''localOne'') ''LOCAL_ONE''
      (AList.update (consistencyCode e ''localSerial'') ''LOCAL_SERIAL''
        (AList.update (consistencyCode e ''eachQuorum'') ''EACH_QUORUM''
          (AList.update (consistencyCode e ''localQuorum'') ''LOCAL_QUORUM''
            (loadLoop e (map fst (consistencies e)) []))))"

definition loadConsistencyNames :: "env \<Rightarrow> unit action" where
  "loadConsistencyNames e s =
     (case consistencyNames s of
        Some _ \<Rightarrow> (Inr (), s)
      | None \<Rightarrow> (Inr (), s\<lparr>consistencyNames := Some (loadedNames e)\<rparr>))"

text \<open>
  \<open>getConsistencyName\<close>: \<open>null\<close> and \<open>undefined\<close> give \<open>undefined\<close>; a code whose name is
  missing or empty throws.
\<close>

definition getConsistencyName :: "env \<Rightarrow> int js \<Rightarrow> string js action" where
  "getConsistencyName e consistency =
     (case consistency of
        Val c \<Rightarrow>
          bind (loadConsistencyNames e) (\<lambda>_ s.
            case consistencyNames s of
              None \<Rightarrow> (Inl TypeError, s)
            | Some names \<Rightarrow>
                (case map_of names (Val c) of
                   None \<Rightarrow> (Inl (UnknownConsistencyLevel c), s)
                 | Some n \<Rightarrow> if n = [] then (Inl (UnknownConsistencyLevel c), s) else (Inr (Val n), s)))
      | _ \<Rightarrow> ret Undefined)"

subsection \<open>One payload key\<close>

text \<open>
  \<open>setPayloadKey\<close>. The source's optional converter defaults to
  \<open>utils.allocBufferFromString\<close>; here each call names its converter, which is applied
  to a value that is neither \<open>null\<close> nor \<open>undefined\<close>. Reading or writing a payload of an
  object that has none is a TypeError.
\<close>

definition assignKey :: "graphQueryOptions \<Rightarrow> string \<Rightarrow> buffer \<Rightarrow> unit action" where
  "assignKey opts key b =
     (case customPayload opts of Val a \<Rightarrow> setKey a key b | _ \<Rightarrow> throw TypeError)"

definition setPayloadKey ::
  "graphQueryOptions \<Rightarrow> graphQueryOptions \<Rightarrow> string \<Rightarrow> 'a js \<Rightarrow> ('a \<Rightarrow> buffer) \<Rightarrow> unit action" where
  "setPayloadKey opts profileOptions key v converter =
     (case v of
        Null \<Rightarrow> ret ()
      | Val x \<Rightarrow> assignKey opts key (converter x)
      | Undefined \<Rightarrow>
          (case customPayload profileOptions of
             Val d \<Rightarrow> (\<lambda>s. case map_of (payloads s d) key of
                              Some b \<Rightarrow> assignKey opts key b s
                            | None \<Rightarrow> (Inr (), s))
           | _ \<Rightarrow> throw TypeError))"

subsection \<open>The default options of a profile\<close>

text \<open>The body of the factory \<open>createDefaultOptions\<close> inside \<open>getDefaultGraphOptions\<close>.\<close>

definition createDefaultOptions ::
  "profileManager \<Rightarrow> env \<Rightarrow> baseGraphOptions \<Rightarrow> retryPolicy js \<Rightarrow> profile \<Rightarrow> graphQueryOptions action" where
  "createDefaultOptions profileManager e baseOptions defaultRetryPolicy p =
     (let profileOptions = (case profile_graphOptions p of Val g \<Rightarrow> g | _ \<Rightarrow> emptyObject);
          defaultProfile = getDefault profileManager;
          lang = logicalOr truthyString (language profileOptions) (language baseOptions);
          src = logicalOr truthyString (source profileOptions) (source baseOptions);
          graphName' = ifUndefined (name profileOptions) (name baseOptions);
          readConsistency' = ifUndefined (readConsistency profileOptions) (readConsistency baseOptions);
          writeConsistency' = ifUndefined (writeConsistency profileOptions) (writeConsistency baseOptions);
          readTimeout' = ifUndefined3 (profile_readTimeout p) (profile_readTimeout defaultProfile)
                           (base_readTimeout baseOptions)
      in
      bind (allocBufferFromString lang) (\<lambda>langBuffer.
      bind (allocBufferFromString src) (\<lambda>srcBuffer.
      bind (newPayload [(''graph-language'', langBuffer), (''graph-source'', srcBuffer)]) (\<lambda>a.
      bind (if truthyString (base_executeAs baseOptions)
            then bind (allocBufferFromString (base_executeAs baseOptions)) (setKey a (proxyExecuteKey e))
            else ret ()) (\<lambda>_.
      bind (if truthyString graphName'
            then bind (allocBufferFromString graphName') (setKey a ''graph-name'')
            else ret ()) (\<lambda>_.
      bind (if readConsistency' \<noteq> Undefined
            then bind (getConsistencyName e readConsistency') (\<lambda>n.
                 bind (allocBufferFromString n) (setKey a ''graph-read-consistency''))
            else ret ()) (\<lambda>_.
      bind (if writeConsistency' \<noteq> Undefined
            then bind (getConsistencyName e writeConsistency') (\<lambda>n.
                 bind (allocBufferFromString n) (setKey a ''graph-write-consistency''))
            else ret ()) (\<lambda>_.
      bind (case readTimeout' of
              Val t \<Rightarrow> if 0 < t then setKey a ''request-timeout'' (longBuffer t) else ret ()
            | _ \<Rightarrow> ret ()) (\<lambda>_.
      ret \<lparr>executionProfile = Undefined,
           customPayload = Val a,
           graphLanguage = lang,
           graphSource = src,
           executeAs = Undefined,
           graphName = Undefined,
           graphReadConsistency = Undefined,
           graphWriteConsistency = Undefined,
           readTimeout = readTimeout',
           retry = (if ident p \<noteq> ident defaultProfile
                    then logicalOr truthyObject (profile_retry p) (base_retry baseOptions)
                    else logicalOr truthyObject defaultRetryPolicy (base_retry baseOptions)),
           otherOptions = []\<rparr>)))))))))"

text \<open>
  Modelled from the spec: \<open>profileManager.getOrCreateGraphOptions\<close> is outside the sources
  at hand; "a per-profile memoized-value slot", "keyed by profile identity, computed at
  most once per profile". A factory that throws stores nothing.
\<close>

definition getOrCreateGraphOptions :: "profile \<Rightarrow> graphQueryOptions action \<Rightarrow> graphQueryOptions action" where
  "getOrCreateGraphOptions p createHandler s =
     (case graphOptionsCache s (ident p) of
        Some d \<Rightarrow> (Inr d, s)
      | None \<Rightarrow>
          bind createHandler
            (\<lambda>d s'. (Inr d, s'\<lparr>graphOptionsCache := (graphOptionsCache s')(ident p \<mapsto> d)\<rparr>)) s)"

definition getDefaultGraphOptions ::
  "profileManager \<Rightarrow> env \<Rightarrow> baseGraphOptions \<Rightarrow> retryPolicy js \<Rightarrow> profile \<Rightarrow> graphQueryOptions action" where
  "getDefaultGraphOptions profileManager e baseOptions defaultRetryPolicy p =
     getOrCreateGraphOptions p (createDefaultOptions profileManager e baseOptions defaultRetryPolicy p)"

subsection \<open>The options of a call\<close>

text \<open>The argument of \<open>getProfile\<close>: \<open>options && options.executionProfile\<close>.\<close>

fun profileNameOf :: "optionsArg \<Rightarrow> string js" where
  "profileNameOf ArgUndefined = Undefined"
| "profileNameOf ArgNull = Null"
| "profileNameOf ArgFunction = Undefined"
| "profileNameOf (ArgObject opts) = executionProfile opts"

definition noGraphPayloadOptions :: "graphQueryOptions \<Rightarrow> bool" where
  "noGraphPayloadOptions opts \<longleftrightarrow>
     \<not> truthyObject (customPayload opts) \<and>
     \<not> truthyString (graphLanguage opts) \<and>
     \<not> truthyString (graphSource opts) \<and>
     \<not> truthyString (executeAs opts) \<and>
     graphName opts = Undefined \<and>
     graphReadConsistency opts = Undefined \<and>
     graphWriteConsistency opts = Undefined \<and>
     readTimeout opts = Undefined"

text \<open>
  Modelled from the spec: \<open>utils.extend\<close> is outside the sources at hand; it merges the
  four fields "from defaults under any field the user left unset". A property the caller
  set, to \<open>null\<close> as well, stays; every other property of the caller's object is copied.
\<close>

definition utils_extend :: "graphQueryOptions \<Rightarrow> graphQueryOptions \<Rightarrow> graphQueryOptions" where
  "utils_extend defaultGraphOptions opts =
     opts\<lparr>graphLanguage := ifUndefined (graphLanguage opts) (graphLanguage defaultGraphOptions),
          graphSource := ifUndefined (graphSource opts) (graphSource defaultGraphOptions),
          readTimeout := ifUndefined (readTimeout opts) (readTimeout defaultGraphOptions),
          retry := ifUndefined (retry opts) (retry defaultGraphOptions)\<rparr>"

definition createQueryOptions ::
  "profileManager \<Rightarrow> env \<Rightarrow> baseGraphOptions \<Rightarrow> retryPolicy js \<Rightarrow> optionsArg \<Rightarrow> optionsArg action" where
  "createQueryOptions profileManager e baseOptions defaultRetryPolicy arg =
     (case getProfile profileManager (profileNameOf arg) of
        None \<Rightarrow> ret arg
      | Some p \<Rightarrow>
          bind (getDefaultGraphOptions profileManager e baseOptions defaultRetryPolicy p)
            (\<lambda>defaultGraphOptions.
               case arg of
                 ArgObject userOptions \<Rightarrow>
                   (let opts = utils_extend defaultGraphOptions userOptions in
                    if noGraphPayloadOptions userOptions
                    then ret (ArgObject (opts\<lparr>customPayload := customPayload defaultGraphOptions\<rparr>))
                    else
                      bind (case customPayload opts of
                              Val u \<Rightarrow> clonePayload u
                            | _ \<Rightarrow> newPayload []) (\<lambda>a.
                      let opts = opts\<lparr>customPayload := Val a\<rparr> in
                      bind (setPayloadKey opts defaultGraphOptions (proxyExecuteKey e)
                              (executeAs opts) stringBytes) (\<lambda>_.
                      bind (setPayloadKey opts defaultGraphOptions ''graph-language''
                              (graphLanguage opts) stringBytes) (\<lambda>_.
                      bind (setPayloadKey opts defaultGraphOptions ''graph-source''
                              (graphSource opts) stringBytes) (\<lambda>_.
                      bind (setPayloadKey opts defaultGraphOptions ''graph-name''
                              (graphName opts) stringBytes) (\<lambda>_.
                      bind (getConsistencyName e (graphReadConsistency opts)) (\<lambda>readName.
                      bind (setPayloadKey opts defaultGraphOptions ''graph-read-consistency''
                              readName stringBytes) (\<lambda>_.
                      bind (getConsistencyName e (graphWriteConsistency opts)) (\<lambda>writeName.
                      bind (setPayloadKey opts defaultGraphOptions ''graph-write-consistency''
                              writeName stringBytes) (\<lambda>_.
                      bind (setPayloadKey opts defaultGraphOptions ''request-timeout''
                              (if greaterThanZero (readTimeout opts) then readTimeout opts else Null)
                              longBuffer) (\<lambda>_.
                      ret (ArgObject opts))))))))))))
               | _ \<Rightarrow> ret (ArgObject defaultGraphOptions)))"

subsection \<open>What the properties below are stated with\<close>

text \<open>The name the registry is expected to hold for a property of \<open>types.consistencies\<close>:
  upper case, and the Java constant for the four names of two words.\<close>

definition canonicalName :: "string \<Rightarrow> string" where
  "canonicalName n =
     (if n = ''localQuorum'' then ''LOCAL_QUORUM''
      else if n = ''eachQuorum'' then ''EACH_QUORUM''
      else if n = ''localSerial'' then ''LOCAL_SERIAL''
      else if n = ''localOne'' then ''LOCAL_ONE''
      else toUpperCase n)"

text \<open>The retry policy the defaults of a profile are expected to carry.\<close>

definition resolvedRetry ::
  "profileManager \<Rightarrow> baseGraphOptions \<Rightarrow> retryPolicy js \<Rightarrow> profile \<Rightarrow> retryPolicy js" where
  "resolvedRetry profileManager baseOptions defaultRetryPolicy p =
     (if ident p \<noteq> ident (getDefault profileManager)
      then (case profile_retry p of Val r \<Rightarrow> Val r | _ \<Rightarrow> base_retry baseOptions)
      else (case defaultRetryPolicy of Val r \<Rightarrow> Val r | _ \<Rightarrow> base_retry baseOptions))"

text \<open>The table \<open>types.consistencies\<close> as an object with codes: no property name twice,
  no code twice, no empty name.\<close>

definition wellFormedTable :: "env \<Rightarrow> bool" where
  "wellFormedTable e \<longleftrightarrow>
     distinct (map fst (consistencies e)) \<and> distinct (map snd (consistencies e)) \<and>
     [] \<notin> fst ` set (consistencies e)"

text \<open>The module variable is not loaded yet, or holds what \<open>loadConsistencyNames\<close> stores.\<close>

definition namesLoaded :: "env \<Rightarrow> state \<Rightarrow> bool" where
  "namesLoaded e s \<longleftrightarrow> consistencyNames s = None \<or> consistencyNames s = Some (loadedNames e)"

text \<open>The caller supplied none of the properties that change the payload.\<close>

fun suppliesNoGraphOption :: "optionsArg \<Rightarrow> bool" where
  "suppliesNoGraphOption (ArgObject opts) \<longleftrightarrow>
     customPayload opts = Undefined \<and> graphLanguage opts = Undefined \<and>
     graphSource opts = Undefined \<and> executeAs opts = Undefined \<and>
     graphName opts = Undefined \<and> graphReadConsistency opts = Undefined \<and>
     graphWriteConsistency opts = Undefined \<and> readTimeout opts = Undefined"
| "suppliesNoGraphOption _ \<longleftrightarrow> True"

text \<open>
  A state \<open>s\<close> that the steps of one call reach from \<open>s0\<close>: references are not reused, the
  payload objects that existed in \<open>s0\<close> are as they were, the cache is as it was, and the
  consistency names are as they were or were loaded in between.
\<close>

definition laterState :: "env \<Rightarrow> state \<Rightarrow> state \<Rightarrow> bool" where
  "laterState e s0 s \<longleftrightarrow>
     nextRef s0 \<le> nextRef s \<and>
     (\<forall>a<nextRef s0. payloads s a = payloads s0 a) \<and>
     graphOptionsCache s = graphOptionsCache s0 \<and>
     (consistencyNames s = consistencyNames s0 \<or>
      consistencyNames s0 = None \<and> consistencyNames s = Some (loadedNames e))"

text \<open>
  A state \<open>s'\<close> after a whole call that started in \<open>s\<close>: as above, but the cache may have
  gained the entry of the one profile \<open>k\<close> the call resolved.
\<close>

definition afterCall :: "env \<Rightarrow> nat \<Rightarrow> state \<Rightarrow> state \<Rightarrow> bool" where
  "afterCall e k s s' \<longleftrightarrow>
     nextRef s \<le> nextRef s' \<and>
     (\<forall>a<nextRef s. payloads s' a = payloads s a) \<and>
     (graphOptionsCache s' = graphOptionsCache s \<or>
      graphOptionsCache s k = None \<and> (\<exists>d. graphOptionsCache s' = (graphOptionsCache s)(k \<mapsto> d))) \<and>
     (consistencyNames s' = consistencyNames s \<or>
      consistencyNames s = None \<and> consistencyNames s' = Some (loadedNames e))"

text \<open>The entry of a payload object under a key, \<open>payload[key]\<close>.\<close>

definition entry :: "state \<Rightarrow> ref \<Rightarrow> string \<Rightarrow> buffer option" where
  "entry s a key = map_of (payloads s a) key"

text \<open>The entry \<open>request-timeout\<close> that goes with a read timeout: the encoded milliseconds
  when the timeout is a number above zero, and none otherwise.\<close>

definition timeoutEntry :: "int js \<Rightarrow> buffer option" where
  "timeoutEntry t = (case t of Val n \<Rightarrow> if 0 < n then Some (longBuffer n) else None | _ \<Rightarrow> None)"

text \<open>
  What holds of the default options \<open>createDefaultOptions\<close> builds, and so of every entry of
  the cache: the payload is an object that exists, language and source are strings and
  have their keys, and the key \<open>request-timeout\<close> goes with the read timeout (as long as
  the proxy-execute key of the driver is not that very key).
\<close>

definition defaultsOK :: "env \<Rightarrow> state \<Rightarrow> graphQueryOptions \<Rightarrow> bool" where
  "defaultsOK e s d \<longleftrightarrow>
     (\<exists>a l src. customPayload d = Val a \<and> a < nextRef s \<and>
        graphLanguage d = Val l \<and> graphSource d = Val src \<and>
        entry s a ''graph-language'' \<noteq> None \<and>
        entry s a ''graph-source'' \<noteq> None \<and>
        (proxyExecuteKey e \<noteq> ''request-timeout'' \<longrightarrow>
           entry s a ''request-timeout'' = timeoutEntry (readTimeout d)))"

definition cacheOK :: "env \<Rightarrow> state \<Rightarrow> bool" where
  "cacheOK e s \<longleftrightarrow> (\<forall>k d. graphOptionsCache s k = Some d \<longrightarrow> defaultsOK e s d)"

text \<open>Properties of one entry that the steps of a call keep.\<close>

definition keyIs :: "ref \<Rightarrow> string \<Rightarrow> buffer option \<Rightarrow> state \<Rightarrow> bool" where
  "keyIs a key v s \<longleftrightarrow> entry s a key = v"

definition hasKey :: "ref \<Rightarrow> string \<Rightarrow> state \<Rightarrow> bool" where
  "hasKey a key s \<longleftrightarrow> entry s a key \<noteq> None"

text \<open>How one key of a rebuilt payload comes out: \<open>null\<close> leaves what the clone of the
  caller's payload holds, a value is stored, and \<open>undefined\<close> takes the entry of the
  defaults when there is one.\<close>

definition resolvedEntry :: "buffer js \<Rightarrow> buffer option \<Rightarrow> buffer option \<Rightarrow> buffer option" where
  "resolvedEntry v inherited own =
     (case v of
        Null \<Rightarrow> own
      | Val b \<Rightarrow> Some b
      | Undefined \<Rightarrow> (case inherited of Some b \<Rightarrow> Some b | None \<Rightarrow> own))"

text \<open>What the payload object of the caller holds under a key, and that this object exists.\<close>

fun callerEntry :: "state \<Rightarrow> optionsArg \<Rightarrow> string \<Rightarrow> buffer option" where
  "callerEntry s (ArgObject opts) key = (case customPayload opts of Val c \<Rightarrow> entry s c key | _ \<Rightarrow> None)"
| "callerEntry s _ key = None"

fun callerPayloadExists :: "state \<Rightarrow> optionsArg \<Rightarrow> bool" where
  "callerPayloadExists s (ArgObject opts) \<longleftrightarrow> (case customPayload opts of Val c \<Rightarrow> c < nextRef s | _ \<Rightarrow> True)"
| "callerPayloadExists s _ \<longleftrightarrow> True"

text \<open>The caller passes \<open>null\<close> for a field in a call that rebuilds the payload.\<close>

fun rebuildsWithNull :: "(graphQueryOptions \<Rightarrow> string js) \<Rightarrow> optionsArg \<Rightarrow> bool" where
  "rebuildsWithNull field (ArgObject opts) \<longleftrightarrow> \<not> noGraphPayloadOptions opts \<and> field opts = Null"
| "rebuildsWithNull field _ \<longleftrightarrow> False"

text \<open>The payload reference of what a call returned.\<close>

fun payloadOf :: "optionsArg \<Rightarrow> ref js" where
  "payloadOf (ArgObject opts) = customPayload opts"
| "payloadOf _ = Undefined"

text \<open>A consistency that is a number and no code of \<open>types.consistencies\<close>.\<close>

definition unregistered :: "env \<Rightarrow> int js \<Rightarrow> bool" where
  "unregistered e c \<longleftrightarrow> (\<exists>code. c = Val code \<and> code \<notin> snd ` set (consistencies e))"

text \<open>An action keeps a property of the state, whether it returns or throws.\<close>

definition preserves :: "(state \<Rightarrow> bool) \<Rightarrow> 'a action \<Rightarrow> bool" where
  "preserves P f \<longleftrightarrow> (\<forall>s. P s \<longrightarrow> P (snd (f s)))"

text \<open>Every result of an action has a property.\<close>

definition yields :: "('a \<Rightarrow> bool) \<Rightarrow> 'a action \<Rightarrow> bool" where
  "yields Q f \<longleftrightarrow> (\<forall>s x s'. f s = (Inr x, s') \<longrightarrow> Q x)"

subsection \<open>A client to run the code on\<close>

text \<open>The table of consistency levels of the driver, a client with the default profile and
  a profile \<open>ep1\<close>, and the state of a process that has not run a graph query yet.\<close>

definition driverEnv :: env where
  "driverEnv = \<lparr>proxyExecuteKey = ''ProxyExecute'',
     consistencies = [(''any'', 0), (''one'', 1), (''two'', 2), (''three'', 3), (''quorum'', 4),
       (''all'', 5), (''localQuorum'', 6), (''eachQuorum'', 7), (''serial'', 8),
       (''localSerial'', 9), (''localOne'', 10)]\<rparr>"

definition clientBaseOptions :: baseGraphOptions where
  "clientBaseOptions = \<lparr>language = Val ''gremlin-groovy'', source = Val ''g'', name = Val ''demo'',
     readConsistency = Val 6, writeConsistency = Undefined,
     base_executeAs = Undefined, base_retry = Val (RetryPolicy 0), base_readTimeout = Val 0\<rparr>"

definition defaultProfile :: profile where
  "defaultProfile = \<lparr>ident = 0, profile_graphOptions = Undefined,
     profile_retry = Val (RetryPolicy 1), profile_readTimeout = Undefined\<rparr>"

definition ep1 :: profile where
  "ep1 = \<lparr>ident = 1, profile_graphOptions = Undefined,
     profile_retry = Undefined, profile_readTimeout = Val 5000\<rparr>"

definition clientProfiles :: profileManager where
  "clientProfiles = \<lparr>getProfile = (\<lambda>n. if n = Val ''ep1'' then Some ep1
                                        else if n = Val ''nonexistent'' then None
                                        else Some defaultProfile),
     getDefault = defaultProfile\<rparr>"

definition noOptions :: graphQueryOptions where
  "noOptions = \<lparr>executionProfile = Undefined, customPayload = Undefined, graphLanguage = Undefined,
     graphSource = Undefined, executeAs = Undefined, graphName = Undefined,
     graphReadConsistency = Undefined, graphWriteConsistency = Undefined,
     readTimeout = Undefined, retry = Undefined, otherOptions = []\<rparr>"

definition freshState :: state where
  "freshState = \<lparr>consistencyNames = None, graphOptionsCache = Map.empty,
     payloads = (\<lambda>_. []), nextRef = 0\<rparr>"

text \<open>A caller that holds a payload object of its own, at reference 0.\<close>

definition callerState :: state where
  "callerState = \<lparr>consistencyNames = None, graphOptionsCache = Map.empty,
     payloads = (\<lambda>_. [])(0 := [(''trace'', [1, 2]), (''request-timeout'', [0, 0, 0, 0, 0, 0, 0, 9])]),
     nextRef = 1\<rparr>"

text \<open>The client above on its first graph query: the call, the options of a caller that
  clears the graph name and sets a read timeout, what comes back, and the default options
  and the state once the default profile was resolved.\<close>

definition clientCall :: "optionsArg \<Rightarrow> optionsArg action" where
  "clientCall = createQueryOptions clientProfiles driverEnv clientBaseOptions (Val (RetryPolicy 7))"

definition callerOptions :: graphQueryOptions where
  "callerOptions = noOptions\<lparr>graphName := Null, readTimeout := Val 5000\<rparr>"

definition callerResult :: graphQueryOptions where
  "callerResult = noOptions\<lparr>customPayload := Val 1, graphLanguage := Val ''gremlin-groovy'',
     graphSource := Val ''g'', graphName := Null, readTimeout := Val 5000,
     retry := Val (RetryPolicy 7)\<rparr>"

definition clientDefaults :: graphQueryOptions where
  "clientDefaults = noOptions\<lparr>customPayload := Val 0, graphLanguage := Val ''gremlin-groovy'',
     graphSource := Val ''g'', readTimeout := Val 0, retry := Val (RetryPolicy 7)\<rparr>"

definition warmState :: state where
  "warmState = \<lparr>consistencyNames = Some (loadedNames driverEnv),
     graphOptionsCache = [0 \<mapsto> clientDefaults],
     payloads = (\<lambda>_. [])(0 := [(''graph-language'', stringBytes ''gremlin-groovy''),
        (''graph-source'', stringBytes ''g''), (''graph-name'', stringBytes ''demo''),
        (''graph-read-consistency'', stringBytes ''LOCAL_QUORUM'')]),
     nextRef = 1\<rparr>"

section \<open>Properties\<close>

subsection \<open>Running actions\<close>

lemma bind_ret [simp]: "bind (ret x) g s = g x s"
  by (simp add: bind_def ret_def)

lemma bind_throw [simp]: "bind (throw err) g s = (Inl err, s)"
  by (simp add: bind_def throw_def)

lemma bind_InrE:
  assumes "bind f g s = (Inr y, s'')"
  obtains x s' where "f s = (Inr x, s')" and "g x s' = (Inr y, s'')"
  using assms by (auto simp: bind_def split: prod.splits sum.splits)

lemma bind_InlE:
  assumes "bind f g s = (Inl err, s'')"
  obtains (first) "f s = (Inl err, s'')"
  | (second) x s' where "f s = (Inr x, s')" and "g x s' = (Inl err, s'')"
  using assms by (auto simp: bind_def split: prod.splits sum.splits)

lemma bind_Inr: "f s = (Inr x, s') \<Longrightarrow> bind f g s = g x s'"
  by (simp add: bind_def)

lemma bind_Inl: "f s = (Inl err, s') \<Longrightarrow> bind f g s = (Inl err, s')"
  by (simp add: bind_def)

lemma yields_ret: "Q x \<Longrightarrow> yields Q (ret x)"
  by (simp add: yields_def ret_def)

lemma yields_bind: "(\<And>x. yields Q (g x)) \<Longrightarrow> yields Q (bind f g)"
  unfolding yields_def by (metis bind_InrE)

lemma yieldsD: "yields Q f \<Longrightarrow> f s = (Inr x, s') \<Longrightarrow> Q x"
  by (auto simp: yields_def)

subsection \<open>What the steps of a call leave as it was\<close>

lemma preservesD: "preserves P f \<Longrightarrow> P s \<Longrightarrow> P (snd (f s))"
  by (simp add: preserves_def)

lemma preserves_ret: "preserves P (ret x)"
  by (simp add: preserves_def ret_def)

lemma preserves_throw: "preserves P (throw err)"
  by (simp add: preserves_def throw_def)

lemma preserves_bind:
  assumes "preserves P f" and "\<And>x. preserves P (g x)"
  shows "preserves P (bind f g)"
  unfolding preserves_def
proof (intro allI impI)
  fix s assume "P s"
  with assms(1) have 1: "P (snd (f s))" by (rule preservesD)
  show "P (snd (bind f g s))"
  proof (cases "f s")
    case (Pair r s1)
    with 1 have "P s1" by simp
    show ?thesis
    proof (cases r)
      case (Inl err)
      with Pair \<open>P s1\<close> show ?thesis by (simp add: bind_def)
    next
      case (Inr x)
      from assms(2) \<open>P s1\<close> have "P (snd (g x s1))" by (rule preservesD)
      with Pair Inr show ?thesis by (simp add: bind_def)
    qed
  qed
qed

lemma preserves_bind_result:
  assumes "preserves P f"
    and "\<And>s x s'. P s \<Longrightarrow> f s = (Inr x, s') \<Longrightarrow> R x"
    and "\<And>x. R x \<Longrightarrow> preserves P (g x)"
  shows "preserves P (bind f g)"
  unfolding preserves_def
proof (intro allI impI)
  fix s assume "P s"
  with assms(1) have 1: "P (snd (f s))" by (rule preservesD)
  show "P (snd (bind f g s))"
  proof (cases "f s")
    case (Pair r s1)
    with 1 have "P s1" by simp
    show ?thesis
    proof (cases r)
      case (Inl err)
      with Pair \<open>P s1\<close> show ?thesis by (simp add: bind_def)
    next
      case (Inr x)
      with Pair \<open>P s\<close> have "R x" by (intro assms(2)) simp_all
      then have "preserves P (g x)" by (rule assms(3))
      from this \<open>P s1\<close> have "P (snd (g x s1))" by (rule preservesD)
      with Pair Inr show ?thesis by (simp add: bind_def)
    qed
  qed
qed

lemma preserves_if:
  "(c \<Longrightarrow> preserves P f) \<Longrightarrow> (\<not> c \<Longrightarrow> preserves P g) \<Longrightarrow> preserves P (if c then f else g)"
  by simp

lemma preserves_allocBufferFromString: "preserves P (allocBufferFromString v)"
  by (cases v) (simp_all add: preserves_ret preserves_throw)

lemma laterState_refl: "laterState e s s"
  by (simp add: laterState_def)

lemma laterState_newPayload: "preserves (laterState e s0) (newPayload p)"
  by (simp add: preserves_def laterState_def newPayload_def)

lemma laterState_clonePayload: "preserves (laterState e s0) (clonePayload u)"
  by (simp add: preserves_def laterState_def newPayload_def clonePayload_def)

lemma laterState_setKey: "nextRef s0 \<le> a \<Longrightarrow> preserves (laterState e s0) (setKey a key b)"
  by (simp add: preserves_def laterState_def setKey_def)

lemma laterState_getConsistencyName: "preserves (laterState e s0) (getConsistencyName e c)"
  by (auto simp: preserves_def laterState_def getConsistencyName_def loadConsistencyNames_def
      bind_def ret_def split: js.splits option.splits)

lemma newPayload_fresh: "laterState e s0 s \<Longrightarrow> newPayload p s = (Inr a, s') \<Longrightarrow> nextRef s0 \<le> a"
  by (auto simp: laterState_def newPayload_def)

lemma clonePayload_fresh: "laterState e s0 s \<Longrightarrow> clonePayload u s = (Inr a, s') \<Longrightarrow> nextRef s0 \<le> a"
  by (auto simp: laterState_def newPayload_def clonePayload_def)

lemma laterState_assignKey:
  "(\<And>a. customPayload opts = Val a \<Longrightarrow> nextRef s0 \<le> a) \<Longrightarrow> preserves (laterState e s0) (assignKey opts key b)"
  by (cases "customPayload opts") (simp_all add: assignKey_def preserves_throw laterState_setKey)

lemma laterState_setPayloadKey:
  assumes "\<And>a. customPayload opts = Val a \<Longrightarrow> nextRef s0 \<le> a"
  shows "preserves (laterState e s0) (setPayloadKey opts d key v converter)"
proof -
  have A: "preserves (laterState e s0) (assignKey opts key b)" for b
    using assms by (rule laterState_assignKey)
  show ?thesis
  proof (cases v)
    case Undefined
    show ?thesis
    proof (cases "customPayload d")
      case (Val r)
      have "laterState e s0 (snd (case map_of (payloads s r) key of
              Some b \<Rightarrow> assignKey opts key b s | None \<Rightarrow> (Inr (), s)))" if "laterState e s0 s" for s
        using that preservesD [OF A that] by (simp split: option.splits)
      with Undefined Val show ?thesis
        by (simp add: setPayloadKey_def preserves_def)
    qed (simp_all add: Undefined setPayloadKey_def preserves_throw)
  qed (simp_all add: setPayloadKey_def preserves_ret A)
qed

lemma laterState_timeoutKey:
  "nextRef s0 \<le> a \<Longrightarrow>
   preserves (laterState e s0)
     (case t of Val n \<Rightarrow> if 0 < n then setKey a key (longBuffer n) else ret () | _ \<Rightarrow> ret ())"
  by (cases t) (simp_all add: preserves_ret laterState_setKey)

lemma laterState_createDefaultOptions:
  "preserves (laterState e s0) (createDefaultOptions pm e baseOptions drp p)"
  unfolding createDefaultOptions_def Let_def
  apply (rule preserves_bind [OF preserves_allocBufferFromString])
  apply (rule preserves_bind [OF preserves_allocBufferFromString])
  apply (rule preserves_bind_result [where R = "\<lambda>a. nextRef s0 \<le> a", OF laterState_newPayload])
   apply (erule (1) newPayload_fresh)
  apply (intro preserves_bind preserves_if preserves_allocBufferFromString preserves_ret
      laterState_getConsistencyName laterState_setKey laterState_timeoutKey)
        apply assumption+
  done


lemma afterCall_refl: "afterCall e k s s"
  by (simp add: afterCall_def)

lemma afterCall_laterState: "afterCall e k s s1 \<Longrightarrow> laterState e s1 s' \<Longrightarrow> afterCall e k s s'"
  unfolding afterCall_def laterState_def
  by (intro conjI; elim conjE) auto

lemma getOrCreate_hit:
  "graphOptionsCache s (ident p) = Some d \<Longrightarrow> getOrCreateGraphOptions p f s = (Inr d, s)"
  by (simp add: getOrCreateGraphOptions_def)

lemma getOrCreate_miss:
  assumes "graphOptionsCache s (ident p) = None"
  shows "getOrCreateGraphOptions p f s =
    (case f s of (Inl err, s1) \<Rightarrow> (Inl err, s1)
     | (Inr d, s1) \<Rightarrow> (Inr d, s1\<lparr>graphOptionsCache := (graphOptionsCache s1)(ident p \<mapsto> d)\<rparr>))"
  using assms by (simp add: getOrCreateGraphOptions_def bind_def split: prod.splits sum.splits)

lemma afterCall_getDefaultGraphOptions:
  "afterCall e (ident p) s (snd (getDefaultGraphOptions pm e baseOptions drp p s))"
proof (cases "graphOptionsCache s (ident p)")
  case (Some d)
  then show ?thesis
    by (simp add: getDefaultGraphOptions_def getOrCreate_hit afterCall_refl)
next
  case None
  have "laterState e s (snd (createDefaultOptions pm e baseOptions drp p s))"
    by (rule preservesD [OF laterState_createDefaultOptions laterState_refl])
  then show ?thesis
    using None unfolding getDefaultGraphOptions_def getOrCreate_miss [OF None]
    by (auto simp: afterCall_def laterState_def split: prod.splits sum.splits)
qed

lemma laterState_payloadStart:
  "preserves (laterState e s0) (case c of Val u \<Rightarrow> clonePayload u | _ \<Rightarrow> newPayload [])"
  by (cases c) (simp_all add: laterState_newPayload laterState_clonePayload)

lemma payloadStart_fresh:
  "laterState e s0 s \<Longrightarrow> (case c of Val u \<Rightarrow> clonePayload u | _ \<Rightarrow> newPayload []) s = (Inr a, s')
   \<Longrightarrow> nextRef s0 \<le> a"
  by (cases c) (auto dest: newPayload_fresh clonePayload_fresh)

lemma afterCall_createQueryOptions:
  "afterCall e (case getProfile pm (profileNameOf arg) of Some p \<Rightarrow> ident p | None \<Rightarrow> 0) s
     (snd (createQueryOptions pm e baseOptions drp arg s))"
proof (cases "getProfile pm (profileNameOf arg)")
  case None
  then show ?thesis
    by (simp add: createQueryOptions_def ret_def afterCall_refl)
next
  case (Some p)
  obtain r1 s1 where run: "getDefaultGraphOptions pm e baseOptions drp p s = (r1, s1)"
    by fastforce
  have G: "afterCall e (ident p) s s1"
    using afterCall_getDefaultGraphOptions [of e p s pm baseOptions drp] run by simp
  show ?thesis
  proof (cases r1)
    case (Inl err)
    with Some run G show ?thesis
      by (simp add: createQueryOptions_def bind_Inl)
  next
    case (Inr d)
    show ?thesis
      unfolding createQueryOptions_def using Some run Inr
      apply (simp add: bind_Inr)
      apply (rule afterCall_laterState [OF G])
      apply (rule preservesD [OF _ laterState_refl])
      apply (cases arg; simp add: preserves_ret Let_def)
      apply (intro impI)
      apply (rule preserves_bind_result [where R = "\<lambda>a. nextRef s1 \<le> a", OF laterState_payloadStart])
       apply (erule (1) payloadStart_fresh)
      apply (intro preserves_bind preserves_ret laterState_getConsistencyName laterState_setPayloadKey)
            apply simp_all
      done
  qed
qed

subsection \<open>A profile the manager does not know\<close>

text \<open>
  C4. When the profile manager has no profile for the execution profile the options
  name, \<open>createQueryOptions\<close> returns its argument as it is, and nothing else happens: no
  defaults are computed or cached, no payload is created, nothing is thrown.
\<close>

theorem createQueryOptions_unknown_profile:
  assumes "getProfile profileManager (profileNameOf arg) = None"
  shows "createQueryOptions profileManager e baseOptions defaultRetryPolicy arg s = (Inr arg, s)"
  using assms by (simp add: createQueryOptions_def ret_def)

theorem createQueryOptions_unknown_profile_witness:
  "getProfile clientProfiles
     (profileNameOf (ArgObject (noOptions\<lparr>executionProfile := Val ''nonexistent'', graphName := Null\<rparr>))) = None
   \<and> createQueryOptions clientProfiles driverEnv clientBaseOptions Undefined
       (ArgObject (noOptions\<lparr>executionProfile := Val ''nonexistent'', graphName := Null\<rparr>)) freshState
     = (Inr (ArgObject (noOptions\<lparr>executionProfile := Val ''nonexistent'', graphName := Null\<rparr>)), freshState)"
proof -
  have h: "getProfile clientProfiles
     (profileNameOf (ArgObject (noOptions\<lparr>executionProfile := Val ''nonexistent'', graphName := Null\<rparr>))) = None"
    by (simp add: clientProfiles_def)
  show ?thesis
    using h createQueryOptions_unknown_profile [OF h] by simp
qed

subsection \<open>The payload object of the caller\<close>

text \<open>
  C10. \<open>createQueryOptions\<close> never writes to the payload object the caller passed as
  \<open>customPayload\<close>: whatever the call does, returning or throwing, the object holds
  afterwards exactly the entries it held before. (The keys are written to a clone.)
\<close>

theorem caller_payload_untouched:
  assumes "customPayload userOptions = Val a" and "a < nextRef s"
  shows "payloads (snd (createQueryOptions pm e baseOptions drp (ArgObject userOptions) s)) a = payloads s a"
  using afterCall_createQueryOptions [of e pm "ArgObject userOptions" s baseOptions drp] assms(2)
  by (simp add: afterCall_def)

theorem caller_payload_untouched_witness:
  "customPayload (noOptions\<lparr>customPayload := Val 0, graphName := Val ''g1''\<rparr>) = Val 0
   \<and> 0 < nextRef callerState
   \<and> payloads (snd (createQueryOptions clientProfiles driverEnv clientBaseOptions Undefined
         (ArgObject (noOptions\<lparr>customPayload := Val 0, graphName := Val ''g1''\<rparr>)) callerState)) 0
       = [(''trace'', [1, 2]), (''request-timeout'', [0, 0, 0, 0, 0, 0, 0, 9])]"
proof -
  have h1: "customPayload (noOptions\<lparr>customPayload := Val 0, graphName := Val ''g1''\<rparr>) = Val 0"
    by simp
  have h2: "0 < nextRef callerState"
    by (simp add: callerState_def)
  have "payloads callerState 0 = [(''trace'', [1, 2]), (''request-timeout'', [0, 0, 0, 0, 0, 0, 0, 9])]"
    by (simp add: callerState_def)
  with caller_payload_untouched [OF h1 h2] h1 h2 show ?thesis
    by simp
qed

subsection \<open>One payload key\<close>

lemma assignKey_Val:
  "customPayload opts = Val a \<Longrightarrow>
   assignKey opts key b s = (Inr (), s\<lparr>payloads := (payloads s)(a := AList.update key b (payloads s a))\<rparr>)"
  by (simp add: assignKey_def setKey_def)



subsection \<open>The consistency names\<close>

lemma consistencyCode_Val: "consistencyCode e n = Val c \<longleftrightarrow> map_of (consistencies e) n = Some c"
  by (simp add: consistencyCode_def split: option.splits)

lemma map_of_update_Val:
  "map_of (AList.update k v al) k' = (if k = k' then Some v else map_of al k')"
  by (simp add: update_conv')

lemma loadLoop_lookup:
  assumes "\<And>n'. consistencyCode e n' = Val c \<Longrightarrow> n' = n"
  shows "map_of (loadLoop e propertyNames names) (Val c) =
           (if n \<in> set propertyNames \<and> consistencyCode e n = Val c
            then Some (toUpperCase n) else map_of names (Val c))"
proof (induction propertyNames arbitrary: names)
  case Nil
  then show ?case by simp
next
  case (Cons x xs)
  show ?case
  proof (cases "consistencyCode e x = Val c")
    case True
    with assms have "x = n" by simp
    with True show ?thesis
      by (simp add: Cons.IH map_of_update_Val)
  next
    case False
    then have "x \<noteq> n \<or> consistencyCode e n \<noteq> Val c" by auto
    with False show ?thesis
      by (auto simp: Cons.IH map_of_update_Val)
  qed
qed

lemma code_not_registered:
  assumes "c \<notin> snd ` set (consistencies e)"
  shows "consistencyCode e n \<noteq> Val c"
proof
  assume "consistencyCode e n = Val c"
  then have "map_of (consistencies e) n = Some c"
    by (simp add: consistencyCode_Val)
  then have "(n, c) \<in> set (consistencies e)"
    by (rule map_of_SomeD)
  then have "snd (n, c) \<in> snd ` set (consistencies e)"
    by (rule imageI)
  with assms show False by simp
qed

lemma loadLoop_unregistered:
  assumes "c \<notin> snd ` set (consistencies e)"
  shows "map_of (loadLoop e propertyNames names) (Val c) = map_of names (Val c)"
proof (induction propertyNames arbitrary: names)
  case Nil
  then show ?case by simp
next
  case (Cons x xs)
  have "consistencyCode e x \<noteq> Val c"
    using assms by (rule code_not_registered)
  then show ?case
    by (simp add: Cons.IH map_of_update_Val)
qed

lemma code_unique:
  assumes "distinct (map snd cs)" "(n, c) \<in> set cs" "map_of cs n' = Some c"
  shows "n' = n"
proof -
  from assms(3) have "(n', c) \<in> set cs" by (rule map_of_SomeD)
  moreover from assms(1) have "inj_on snd (set cs)"
    by (simp add: distinct_map)
  ultimately have "(n', c) = (n, c)"
    using assms(2) by (intro inj_onD [of snd "set cs"]) simp_all
  then show ?thesis by simp
qed

lemma loadedNames_registered:
  assumes "distinct (map fst (consistencies e))" "distinct (map snd (consistencies e))"
    and "(n, c) \<in> set (consistencies e)"
  shows "map_of (loadedNames e) (Val c) = Some (canonicalName n)"
proof -
  have look: "consistencyCode e n = Val c"
    using assms(1,3) by (simp add: consistencyCode_Val)
  have uniq: "n' = n" if "consistencyCode e n' = Val c" for n'
    using code_unique [OF assms(2,3)] that by (simp add: consistencyCode_Val)
  have code: "consistencyCode e n' = Val c \<longleftrightarrow> n' = n" for n'
  proof
    assume "consistencyCode e n' = Val c"
    then show "n' = n" by (rule uniq)
  next
    assume "n' = n"
    with look show "consistencyCode e n' = Val c" by simp
  qed
  from assms(3) have "fst (n, c) \<in> fst ` set (consistencies e)"
    by (rule imageI)
  then have mem: "n \<in> set (map fst (consistencies e))"
    by simp
  have "map_of (loadLoop e (map fst (consistencies e)) []) (Val c) =
          (if n \<in> set (map fst (consistencies e)) \<and> consistencyCode e n = Val c
           then Some (toUpperCase n) else map_of [] (Val c))"
    by (rule loadLoop_lookup) (rule uniq)
  with look mem have loop:
    "map_of (loadLoop e (map fst (consistencies e)) []) (Val c) = Some (toUpperCase n)"
    by (simp only: if_True simp_thms)
  have look4: "map_of (loadedNames e) (Val c) =
      (if n = ''localOne'' then Some ''LOCAL_ONE''
       else if n = ''localSerial'' then Some ''LOCAL_SERIAL''
       else if n = ''eachQuorum'' then Some ''EACH_QUORUM''
       else if n = ''localQuorum'' then Some ''LOCAL_QUORUM''
       else Some (toUpperCase n))"
    unfolding loadedNames_def by (simp only: map_of_update_Val code loop eq_commute [of _ n])
  consider "n = ''localOne''" | "n = ''localSerial''" | "n = ''eachQuorum''" | "n = ''localQuorum''"
    | "n \<noteq> ''localOne''" "n \<noteq> ''localSerial''" "n \<noteq> ''eachQuorum''" "n \<noteq> ''localQuorum''"
    by blast
  then show ?thesis
  proof cases
    case 1
    then show ?thesis unfolding look4 canonicalName_def by simp
  next
    case 2
    then show ?thesis unfolding look4 canonicalName_def by simp
  next
    case 3
    then show ?thesis unfolding look4 canonicalName_def by simp
  next
    case 4
    then show ?thesis unfolding look4 canonicalName_def by simp
  next
    case 5
    then show ?thesis unfolding look4 canonicalName_def by (simp only: if_False)
  qed
qed

lemma loadedNames_unregistered:
  assumes "c \<notin> snd ` set (consistencies e)"
  shows "map_of (loadedNames e) (Val c) = None"
proof -
  have "consistencyCode e n \<noteq> Val c" for n
    using assms by (rule code_not_registered)
  then show ?thesis
    by (simp add: loadedNames_def map_of_update_Val loadLoop_unregistered [OF assms])
qed

lemma toUpperCase_Nil: "toUpperCase n = [] \<longleftrightarrow> n = []"
  by (simp add: toUpperCase_def)

lemma canonicalName_Nil: "canonicalName n = [] \<longleftrightarrow> n = []"
  by (auto simp: canonicalName_def toUpperCase_Nil)

lemma getConsistencyName_Val:
  assumes "namesLoaded e s"
  shows "getConsistencyName e (Val c) s =
     (case map_of (loadedNames e) (Val c) of
        None \<Rightarrow> (Inl (UnknownConsistencyLevel c), s\<lparr>consistencyNames := Some (loadedNames e)\<rparr>)
      | Some n \<Rightarrow> if n = [] then (Inl (UnknownConsistencyLevel c), s\<lparr>consistencyNames := Some (loadedNames e)\<rparr>)
                  else (Inr (Val n), s\<lparr>consistencyNames := Some (loadedNames e)\<rparr>))"
  using assms
  by (auto simp: namesLoaded_def getConsistencyName_def loadConsistencyNames_def bind_def split: option.splits)

text \<open>
  C6. For every property of \<open>types.consistencies\<close>, \<open>getConsistencyName\<close> of its code
  returns the name in upper case, and \<open>LOCAL_QUORUM\<close>, \<open>EACH_QUORUM\<close>, \<open>LOCAL_SERIAL\<close>,
  \<open>LOCAL_ONE\<close> for \<open>localQuorum\<close>, \<open>eachQuorum\<close>, \<open>localSerial\<close>, \<open>localOne\<close>; afterwards the
  names are loaded. For \<open>null\<close> and for \<open>undefined\<close> it returns \<open>undefined\<close>, throws nothing and
  loads nothing.
\<close>

theorem registered_consistency_name:
  assumes "wellFormedTable e" and "namesLoaded e s" and "(n, c) \<in> set (consistencies e)"
  shows "getConsistencyName e (Val c) s =
           (Inr (Val (canonicalName n)), s\<lparr>consistencyNames := Some (loadedNames e)\<rparr>)
    \<and> getConsistencyName e Null s = (Inr Undefined, s)
    \<and> getConsistencyName e Undefined s = (Inr Undefined, s)"
proof -
  from assms(1) have d1: "distinct (map fst (consistencies e))"
    and d2: "distinct (map snd (consistencies e))"
    and ne: "[] \<notin> fst ` set (consistencies e)"
    by (simp_all add: wellFormedTable_def)
  from assms(3) have "fst (n, c) \<in> fst ` set (consistencies e)"
    by (rule imageI)
  then have mem: "n \<in> fst ` set (consistencies e)"
    by simp
  have "n \<noteq> []"
  proof
    assume "n = []"
    with mem ne show False by simp
  qed
  then have "getConsistencyName e (Val c) s =
           (Inr (Val (canonicalName n)), s\<lparr>consistencyNames := Some (loadedNames e)\<rparr>)"
    using assms(2)
    by (simp add: getConsistencyName_Val loadedNames_registered [OF d1 d2 assms(3)] canonicalName_Nil)
  then show ?thesis
    by (simp add: getConsistencyName_def ret_def)
qed

lemma wellFormedTable_driverEnv: "wellFormedTable driverEnv"
  by (simp add: wellFormedTable_def driverEnv_def)

lemma namesLoaded_freshState: "namesLoaded e freshState"
  by (simp add: namesLoaded_def freshState_def)

theorem registered_consistency_name_witness:
  "wellFormedTable driverEnv \<and> namesLoaded driverEnv freshState
   \<and> (''localQuorum'', 6) \<in> set (consistencies driverEnv)
   \<and> (''quorum'', 4) \<in> set (consistencies driverEnv)
   \<and> fst (getConsistencyName driverEnv (Val 6) freshState) = Inr (Val ''LOCAL_QUORUM'')
   \<and> fst (getConsistencyName driverEnv (Val 4) freshState) = Inr (Val ''QUORUM'')
   \<and> getConsistencyName driverEnv Null freshState = (Inr Undefined, freshState)
   \<and> getConsistencyName driverEnv Undefined freshState = (Inr Undefined, freshState)"
proof -
  have m6: "(''localQuorum'', 6) \<in> set (consistencies driverEnv)"
    and m4: "(''quorum'', 4) \<in> set (consistencies driverEnv)"
    by (simp_all add: driverEnv_def)
  note r6 = registered_consistency_name [OF wellFormedTable_driverEnv namesLoaded_freshState m6]
  note r4 = registered_consistency_name [OF wellFormedTable_driverEnv namesLoaded_freshState m4]
  have "canonicalName ''localQuorum'' = ''LOCAL_QUORUM''"
    and "canonicalName ''quorum'' = ''QUORUM''"
    by (simp_all add: canonicalName_def toUpperCase_def upperChar_def)
  with r6 r4 m6 m4 wellFormedTable_driverEnv namesLoaded_freshState [of driverEnv]
  show ?thesis by simp
qed

subsection \<open>The retry policy of the defaults\<close>

lemma logicalOr_truthyObject: "logicalOr truthyObject a b = (case a of Val r \<Rightarrow> Val r | _ \<Rightarrow> b)"
  by (cases a) (simp_all add: logicalOr_def)

lemma createDefaultOptions_retry:
  "yields (\<lambda>d. retry d = resolvedRetry pm baseOptions drp p) (createDefaultOptions pm e baseOptions drp p)"
  unfolding createDefaultOptions_def Let_def
  by (intro yields_bind yields_ret) (simp add: resolvedRetry_def logicalOr_truthyObject)

text \<open>
  C2. The retry policy of the default options computed and cached for a profile depends
  on the kind of profile. For a profile other than the default profile it is the retry
  policy of the profile when it has one, else that of the base options. For the default
  profile it is the default retry policy the caller supplied when there is one, else that
  of the base options; the retry policy of the default profile itself plays no part.
\<close>

theorem cached_retry_by_profile_kind:
  assumes "graphOptionsCache s (ident p) = None"
    and "getDefaultGraphOptions profileManager e baseOptions defaultRetryPolicy p s = (Inr d, s')"
  shows "graphOptionsCache s' (ident p) = Some d
    \<and> retry d =
        (if ident p \<noteq> ident (getDefault profileManager)
         then (case profile_retry p of Val r \<Rightarrow> Val r | _ \<Rightarrow> base_retry baseOptions)
         else (case defaultRetryPolicy of Val r \<Rightarrow> Val r | _ \<Rightarrow> base_retry baseOptions))"
proof -
  from assms(2) obtain s1
    where run: "createDefaultOptions profileManager e baseOptions defaultRetryPolicy p s = (Inr d, s1)"
      and s': "s' = s1\<lparr>graphOptionsCache := (graphOptionsCache s1)(ident p \<mapsto> d)\<rparr>"
    unfolding getDefaultGraphOptions_def getOrCreate_miss [OF assms(1)]
    by (auto split: prod.splits sum.splits)
  from yieldsD [OF createDefaultOptions_retry run]
  have "retry d = resolvedRetry profileManager baseOptions defaultRetryPolicy p" .
  with s' show ?thesis by (simp add: resolvedRetry_def)
qed

subsection \<open>The default options that are cached\<close>

lemma keyIs_setKey: "a' \<noteq> a \<or> key' \<noteq> key \<Longrightarrow> preserves (keyIs a key v) (setKey a' key' b)"
  by (auto simp: preserves_def keyIs_def entry_def setKey_def update_conv')

lemma keyIs_getConsistencyName: "preserves (keyIs a key v) (getConsistencyName e c)"
  by (auto simp: preserves_def keyIs_def entry_def getConsistencyName_def loadConsistencyNames_def
      bind_def ret_def split: js.splits option.splits)

lemma keyIs_stored:
  "key' \<noteq> key \<Longrightarrow> preserves (keyIs a key v) (bind (allocBufferFromString x) (setKey a key'))"
  by (intro preserves_bind preserves_allocBufferFromString keyIs_setKey) simp

lemma keyIs_consistency:
  "key' \<noteq> key \<Longrightarrow> preserves (keyIs a key v)
     (bind (getConsistencyName e c) (\<lambda>n. bind (allocBufferFromString n) (setKey a key')))"
  by (intro preserves_bind preserves_allocBufferFromString keyIs_setKey keyIs_getConsistencyName) simp

lemma keyIs_timeoutKey:
  "key \<noteq> ''request-timeout'' \<Longrightarrow> preserves (keyIs a key v)
     (case t of Val n \<Rightarrow> if 0 < n then setKey a ''request-timeout'' (longBuffer n) else ret () | _ \<Rightarrow> ret ())"
  by (cases t) (simp_all add: preserves_ret keyIs_setKey)

lemma nextRef_setKey: "preserves (\<lambda>s. nextRef s = n) (setKey a key b)"
  by (simp add: preserves_def setKey_def)

lemma nextRef_getConsistencyName: "preserves (\<lambda>s. nextRef s = n) (getConsistencyName e c)"
  by (auto simp: preserves_def getConsistencyName_def loadConsistencyNames_def
      bind_def ret_def split: js.splits option.splits)

lemma nextRef_timeoutKey: "preserves (\<lambda>s. nextRef s = n)
     (case t of Val n \<Rightarrow> if 0 < n then setKey a ''request-timeout'' (longBuffer n) else ret () | _ \<Rightarrow> ret ())"
  by (cases t) (simp_all add: preserves_ret nextRef_setKey)

lemma hasKey_setKey: "preserves (hasKey a key) (setKey a' key' b)"
  by (auto simp: preserves_def hasKey_def entry_def setKey_def update_conv')

lemma hasKey_getConsistencyName: "preserves (hasKey a key) (getConsistencyName e c)"
  by (auto simp: preserves_def hasKey_def entry_def getConsistencyName_def loadConsistencyNames_def
      bind_def ret_def split: js.splits option.splits)

lemma hasKey_timeoutKey: "preserves (hasKey a key)
     (case t of Val n \<Rightarrow> if 0 < n then setKey a' key' (longBuffer n) else ret () | _ \<Rightarrow> ret ())"
  by (cases t) (simp_all add: preserves_ret hasKey_setKey)

lemmas preserves_intros = preserves_bind preserves_if preserves_allocBufferFromString preserves_ret

lemma stepD: "P s \<Longrightarrow> f s = (r, s') \<Longrightarrow> preserves P f \<Longrightarrow> P s'"
  by (drule (1) preservesD [rotated]) simp

lemma allocBufferFromString_InrE:
  assumes "allocBufferFromString v s = (Inr b, s')"
  obtains x where "v = Val x" and "b = stringBytes x" and "s' = s"
  using assms by (cases v) (auto simp: ret_def throw_def)

lemma timeoutKey_entry:
  assumes "(case t of Val n \<Rightarrow> if 0 < n then setKey a ''request-timeout'' (longBuffer n) else ret ()
            | _ \<Rightarrow> ret ()) s = (r, s')"
    and "entry s a ''request-timeout'' = None"
  shows "entry s' a ''request-timeout'' = timeoutEntry t"
  using assms by (cases t) (auto simp: timeoutEntry_def ret_def setKey_def entry_def update_conv' split: if_splits)

lemma createDefaultOptions_defaultsOK:
  assumes run: "createDefaultOptions pm e baseOptions drp p s = (Inr d, s')"
  shows "defaultsOK e s' d"
proof -
  let ?po = "case profile_graphOptions p of Val g \<Rightarrow> g | _ \<Rightarrow> emptyObject"
  let ?rt = "ifUndefined3 (profile_readTimeout p) (profile_readTimeout (getDefault pm)) (base_readTimeout baseOptions)"
  from run obtain lb sb a s3 s4 s5 s6 s7 s8 l src where
    l: "logicalOr truthyString (language ?po) (language baseOptions) = Val l"
    and src: "logicalOr truthyString (source ?po) (source baseOptions) = Val src"
    and new: "newPayload [(''graph-language'', lb), (''graph-source'', sb)] s = (Inr a, s3)"
    and exec: "(if truthyString (base_executeAs baseOptions)
            then bind (allocBufferFromString (base_executeAs baseOptions)) (setKey a (proxyExecuteKey e))
            else ret ()) s3 = (Inr (), s4)"
    and nm: "(if truthyString (ifUndefined (name ?po) (name baseOptions))
            then bind (allocBufferFromString (ifUndefined (name ?po) (name baseOptions))) (setKey a ''graph-name'')
            else ret ()) s4 = (Inr (), s5)"
    and rc: "(if ifUndefined (readConsistency ?po) (readConsistency baseOptions) \<noteq> Undefined
            then bind (getConsistencyName e (ifUndefined (readConsistency ?po) (readConsistency baseOptions))) (\<lambda>n.
                 bind (allocBufferFromString n) (setKey a ''graph-read-consistency''))
            else ret ()) s5 = (Inr (), s6)"
    and wc: "(if ifUndefined (writeConsistency ?po) (writeConsistency baseOptions) \<noteq> Undefined
            then bind (getConsistencyName e (ifUndefined (writeConsistency ?po) (writeConsistency baseOptions))) (\<lambda>n.
                 bind (allocBufferFromString n) (setKey a ''graph-write-consistency''))
            else ret ()) s6 = (Inr (), s7)"
    and rt: "(case ?rt of
              Val t \<Rightarrow> if 0 < t then setKey a ''request-timeout'' (longBuffer t) else ret ()
            | _ \<Rightarrow> ret ()) s7 = (Inr (), s')"
    and d: "customPayload d = Val a" "graphLanguage d = Val l" "graphSource d = Val src" "readTimeout d = ?rt"
    unfolding createDefaultOptions_def Let_def
    by (elim bind_InrE allocBufferFromString_InrE) (auto simp: ret_def)
  from new have a: "a = nextRef s" and s3: "nextRef s3 = Suc a"
    and e3: "payloads s3 a = [(''graph-language'', lb), (''graph-source'', sb)]"
    by (auto simp: newPayload_def)
  have steps: "P s'" if "P s3"
    and "\<And>key b. preserves P (setKey a key b)"
    and "\<And>c. preserves P (getConsistencyName e c)" for P
  proof -
    note intros = preserves_intros that(2,3)
    have "P s4" using that(1) exec by (rule stepD [where P = P]) (intro intros)
    then have "P s5" using nm by (rule stepD [where P = P]) (intro intros)
    then have "P s6" using rc by (rule stepD [where P = P]) (intro intros)
    then have "P s7" using wc by (rule stepD [where P = P]) (intro intros)
    then show "P s'" using rt
      by (rule stepD [where P = P]) (cases ?rt; simp add: intros)
  qed
  have n': "nextRef s' = Suc a"
    using s3 by (rule steps [of "\<lambda>s. nextRef s = Suc a"])
      (rule nextRef_setKey nextRef_getConsistencyName)+
  have has: "hasKey a key s'" if "hasKey a key s3" for key
    using that by (rule steps [of "hasKey a key"]) (rule hasKey_setKey hasKey_getConsistencyName)+
  have "hasKey a ''graph-language'' s'" and "hasKey a ''graph-source'' s'"
    by (rule has, simp add: hasKey_def entry_def e3)+
  then have gl: "entry s' a ''graph-language'' \<noteq> None" and gs: "entry s' a ''graph-source'' \<noteq> None"
    by (simp_all add: hasKey_def)
  have to: "entry s' a ''request-timeout'' = timeoutEntry ?rt" if px: "proxyExecuteKey e \<noteq> ''request-timeout''"
  proof -
    note intros = preserves_intros keyIs_setKey keyIs_getConsistencyName
    have "keyIs a ''request-timeout'' None s3"
      by (simp add: keyIs_def entry_def e3)
    then have "keyIs a ''request-timeout'' None s4"
      using exec by (rule stepD [where P = "keyIs a ''request-timeout'' None"]) (intro intros, simp add: px)
    then have "keyIs a ''request-timeout'' None s5"
      using nm by (rule stepD [where P = "keyIs a ''request-timeout'' None"]) (intro intros, simp)
    then have "keyIs a ''request-timeout'' None s6"
      using rc by (rule stepD [where P = "keyIs a ''request-timeout'' None"]) (intro intros, simp)
    then have "keyIs a ''request-timeout'' None s7"
      using wc by (rule stepD [where P = "keyIs a ''request-timeout'' None"]) (intro intros, simp)
    then show ?thesis
      using rt by (intro timeoutKey_entry) (simp_all add: keyIs_def)
  qed
  show ?thesis
    unfolding defaultsOK_def using d gl gs to n' by simp
qed

subsection \<open>The cache stays well formed\<close>

lemma defaultsOK_laterState:
  assumes "defaultsOK e s d" and "laterState e s s'"
  shows "defaultsOK e s' d"
proof -
  from assms(1) obtain a l src where a: "customPayload d = Val a" "a < nextRef s"
    and rest: "graphLanguage d = Val l" "graphSource d = Val src"
      "entry s a ''graph-language'' \<noteq> None" "entry s a ''graph-source'' \<noteq> None"
      "proxyExecuteKey e \<noteq> ''request-timeout'' \<longrightarrow>
           entry s a ''request-timeout'' = timeoutEntry (readTimeout d)"
    unfolding defaultsOK_def by blast
  from assms(2) a(2) have "payloads s' a = payloads s a" and "a < nextRef s'"
    by (auto simp: laterState_def)
  then have "entry s' a key = entry s a key" for key
    by (simp add: entry_def)
  with a rest \<open>a < nextRef s'\<close> show ?thesis
    unfolding defaultsOK_def by simp
qed

lemma cacheOK_laterState:
  assumes "cacheOK e s" and "laterState e s s'"
  shows "cacheOK e s'"
proof -
  from assms(2) have "graphOptionsCache s' = graphOptionsCache s"
    by (simp add: laterState_def)
  moreover have "defaultsOK e s' d" if "graphOptionsCache s k = Some d" for k d
  proof -
    from assms(1) that have "defaultsOK e s d"
      by (simp add: cacheOK_def)
    then show ?thesis
      using assms(2) by (rule defaultsOK_laterState)
  qed
  ultimately show ?thesis
    by (simp add: cacheOK_def)
qed

lemma defaultsOK_cache_update [simp]:
  "defaultsOK e (s\<lparr>graphOptionsCache := c\<rparr>) d = defaultsOK e s d"
  by (simp add: defaultsOK_def entry_def)

lemma cacheOK_update:
  assumes "cacheOK e s" and "defaultsOK e s d"
  shows "cacheOK e (s\<lparr>graphOptionsCache := (graphOptionsCache s)(k \<mapsto> d)\<rparr>)"
  unfolding cacheOK_def
proof (intro allI impI)
  fix k' d'
  assume *: "graphOptionsCache (s\<lparr>graphOptionsCache := (graphOptionsCache s)(k \<mapsto> d)\<rparr>) k' = Some d'"
  show "defaultsOK e (s\<lparr>graphOptionsCache := (graphOptionsCache s)(k \<mapsto> d)\<rparr>) d'"
  proof (cases "k' = k")
    case True
    with * assms(2) show ?thesis by simp
  next
    case False
    with * have "graphOptionsCache s k' = Some d'" by simp
    with assms(1) have "defaultsOK e s d'" by (simp add: cacheOK_def)
    then show ?thesis by simp
  qed
qed

lemma getDefaultGraphOptions_cacheOK:
  assumes "cacheOK e s" and "getDefaultGraphOptions pm e baseOptions drp p s = (r, s1)"
  shows "cacheOK e s1 \<and> (\<forall>d. r = Inr d \<longrightarrow> defaultsOK e s1 d \<and> graphOptionsCache s1 (ident p) = Some d)"
proof (cases "graphOptionsCache s (ident p)")
  case (Some d')
  with assms(2) have eq: "r = Inr d'" "s1 = s"
    by (simp_all add: getDefaultGraphOptions_def getOrCreate_hit)
  from assms(1) Some have "defaultsOK e s d'"
    by (simp add: cacheOK_def)
  with assms(1) Some eq show ?thesis
    by simp
next
  case None
  obtain r0 s0 where run: "createDefaultOptions pm e baseOptions drp p s = (r0, s0)"
    by fastforce
  have later: "laterState e s s0"
    using preservesD [OF laterState_createDefaultOptions laterState_refl, of e s pm baseOptions drp p] run
    by simp
  have ok0: "cacheOK e s0"
    using assms(1) later by (rule cacheOK_laterState)
  show ?thesis
  proof (cases r0)
    case (Inl err)
    with assms(2) None run have "r = Inl err" "s1 = s0"
      by (simp_all add: getDefaultGraphOptions_def getOrCreate_miss)
    with ok0 show ?thesis
      by simp
  next
    case (Inr d0)
    with assms(2) None run have eq: "r = Inr d0"
      "s1 = s0\<lparr>graphOptionsCache := (graphOptionsCache s0)(ident p \<mapsto> d0)\<rparr>"
      by (simp_all add: getDefaultGraphOptions_def getOrCreate_miss)
    from run Inr have "defaultsOK e s0 d0"
      by (intro createDefaultOptions_defaultsOK) simp
    with ok0 have "cacheOK e s1"
      unfolding eq by (rule cacheOK_update)
    with \<open>defaultsOK e s0 d0\<close> eq show ?thesis
      by simp
  qed
qed

lemma createQueryOptions_thrown:
  assumes "getProfile pm (profileNameOf arg) = Some p"
    and "getDefaultGraphOptions pm e baseOptions drp p s = (Inl err, s1)"
  shows "createQueryOptions pm e baseOptions drp arg s = (Inl err, s1)"
  using assms by (simp add: createQueryOptions_def bind_Inl)

lemma createQueryOptions_later:
  assumes "getProfile pm (profileNameOf arg) = Some p"
    and "getDefaultGraphOptions pm e baseOptions drp p s = (Inr d, s1)"
  shows "laterState e s1 (snd (createQueryOptions pm e baseOptions drp arg s))"
  unfolding createQueryOptions_def using assms
  apply (simp add: bind_Inr)
  apply (rule preservesD [OF _ laterState_refl])
  apply (cases arg; simp add: preserves_ret Let_def)
  apply (intro impI)
  apply (rule preserves_bind_result [where R = "\<lambda>a. nextRef s1 \<le> a", OF laterState_payloadStart])
   apply (erule (1) payloadStart_fresh)
  apply (intro preserves_bind preserves_ret laterState_getConsistencyName laterState_setPayloadKey)
        apply simp_all
  done

lemma cacheOK_createQueryOptions:
  assumes "cacheOK e s"
  shows "cacheOK e (snd (createQueryOptions pm e baseOptions drp arg s))"
proof (cases "getProfile pm (profileNameOf arg)")
  case None
  with assms show ?thesis
    by (simp add: createQueryOptions_def ret_def)
next
  case (Some p)
  obtain r1 s1 where run: "getDefaultGraphOptions pm e baseOptions drp p s = (r1, s1)"
    by fastforce
  have ok1: "cacheOK e s1"
    using getDefaultGraphOptions_cacheOK [OF assms run] by simp
  show ?thesis
  proof (cases r1)
    case (Inl err)
    with Some run ok1 show ?thesis
      by (simp add: createQueryOptions_thrown)
  next
    case (Inr d)
    with Some run have "laterState e s1 (snd (createQueryOptions pm e baseOptions drp arg s))"
      by (intro createQueryOptions_later) simp_all
    with ok1 show ?thesis
      by (rule cacheOK_laterState)
  qed
qed

lemma cacheOK_empty: "graphOptionsCache s = Map.empty \<Longrightarrow> cacheOK e s"
  by (simp add: cacheOK_def)

subsection \<open>The steps of a rebuilt payload\<close>

lemma setPayloadKey_cases:
  assumes "setPayloadKey opts d key v conv s = (Inr (), s')" and "customPayload opts = Val a"
  obtains (suppressed) "v = Null" "s' = s"
  | (stored) x where "v = Val x"
      "s' = s\<lparr>payloads := (payloads s)(a := AList.update key (conv x) (payloads s a))\<rparr>"
  | (inherited) r b where "v = Undefined" "customPayload d = Val r" "entry s r key = Some b"
      "s' = s\<lparr>payloads := (payloads s)(a := AList.update key b (payloads s a))\<rparr>"
  | (unset) r where "v = Undefined" "customPayload d = Val r" "entry s r key = None" "s' = s"
proof (cases v)
  case Undefined
  show ?thesis
  proof (cases "customPayload d")
    case (Val r)
    show ?thesis
    proof (cases "entry s r key")
      case None
      with assms Undefined Val have "s' = s"
        by (simp add: setPayloadKey_def entry_def)
      with Undefined Val None show ?thesis by (rule unset)
    next
      case (Some b)
      with assms Undefined Val
      have "s' = s\<lparr>payloads := (payloads s)(a := AList.update key b (payloads s a))\<rparr>"
        by (simp add: setPayloadKey_def entry_def assignKey_Val)
      with Undefined Val Some show ?thesis by (rule inherited)
    qed
  qed (use assms Undefined in \<open>simp_all add: setPayloadKey_def throw_def\<close>)
next
  case Null
  with assms have "s' = s" by (simp add: setPayloadKey_def ret_def)
  with Null show ?thesis by (rule suppressed)
next
  case (Val x)
  with assms have "s' = s\<lparr>payloads := (payloads s)(a := AList.update key (conv x) (payloads s a))\<rparr>"
    by (simp add: setPayloadKey_def assignKey_Val)
  with Val show ?thesis by (rule stored)
qed

lemma setPayloadKey_other:
  assumes "setPayloadKey opts d key v conv s = (Inr (), s')" and "customPayload opts = Val a"
    and "key' \<noteq> key"
  shows "entry s' a key' = entry s a key'"
  using assms(1,2)
  by (cases rule: setPayloadKey_cases) (simp_all add: entry_def update_conv' assms(3))

lemma setPayloadKey_same:
  assumes "setPayloadKey opts d key v conv s = (Inr (), s')" and "customPayload opts = Val a"
  shows "entry s' a key =
           (case v of Null \<Rightarrow> entry s a key
            | Val x \<Rightarrow> Some (conv x)
            | Undefined \<Rightarrow>
                (case customPayload d of
                   Val r \<Rightarrow> (case entry s r key of Some b \<Rightarrow> Some b | None \<Rightarrow> entry s a key)
                 | _ \<Rightarrow> None))"
  using assms
  by (cases rule: setPayloadKey_cases) (simp_all add: entry_def update_conv')

lemma setPayloadKey_frame:
  assumes "setPayloadKey opts d key v conv s = (Inr (), s')" and "customPayload opts = Val a"
  shows "nextRef s' = nextRef s" and "r \<noteq> a \<Longrightarrow> payloads s' r = payloads s r"
  using assms
  by (cases rule: setPayloadKey_cases; simp)+

lemma getConsistencyName_payloads:
  assumes "getConsistencyName e c s = (r, s')"
  shows "payloads s' = payloads s" and "nextRef s' = nextRef s"
  using assms
  by (auto simp: getConsistencyName_def loadConsistencyNames_def bind_def ret_def
      split: js.splits option.splits if_splits)

lemma getConsistencyName_entry:
  "getConsistencyName e c s = (r, s') \<Longrightarrow> entry s' a key = entry s a key"
  by (simp add: entry_def getConsistencyName_payloads)

lemma payloadStart_entry:
  assumes "(case c of Val u \<Rightarrow> clonePayload u | _ \<Rightarrow> newPayload []) s = (Inr a, s')"
  shows "a = nextRef s" and "nextRef s' = Suc a"
    and "entry s' a key = (case c of Val u \<Rightarrow> entry s u key | _ \<Rightarrow> None)"
    and "r \<noteq> a \<Longrightarrow> payloads s' r = payloads s r"
  using assms
  by (cases c; auto simp: clonePayload_def newPayload_def entry_def)+

lemma utils_extend_simps [simp]:
  "customPayload (utils_extend d u) = customPayload u"
  "executeAs (utils_extend d u) = executeAs u"
  "graphName (utils_extend d u) = graphName u"
  "graphReadConsistency (utils_extend d u) = graphReadConsistency u"
  "graphWriteConsistency (utils_extend d u) = graphWriteConsistency u"
  "graphLanguage (utils_extend d u) = ifUndefined (graphLanguage u) (graphLanguage d)"
  "graphSource (utils_extend d u) = ifUndefined (graphSource u) (graphSource d)"
  "readTimeout (utils_extend d u) = ifUndefined (readTimeout u) (readTimeout d)"
  "retry (utils_extend d u) = ifUndefined (retry u) (retry d)"
  by (simp_all add: utils_extend_def)

lemma createQueryOptions_rebuiltE:
  assumes "createQueryOptions pm e baseOptions drp (ArgObject u) s = (Inr r, s')"
    and "getProfile pm (executionProfile u) = Some p"
    and "\<not> noGraphPayloadOptions u"
  obtains d s1 a s2 s3 s4 s5 s6 s7 s8 s9 readName writeName opts where
    "getDefaultGraphOptions pm e baseOptions drp p s = (Inr d, s1)"
    "(case customPayload u of Val c \<Rightarrow> clonePayload c | _ \<Rightarrow> newPayload []) s1 = (Inr a, s2)"
    "opts = (utils_extend d u)\<lparr>customPayload := Val a\<rparr>"
    "setPayloadKey opts d (proxyExecuteKey e) (executeAs u) stringBytes s2 = (Inr (), s3)"
    "setPayloadKey opts d ''graph-language'' (graphLanguage opts) stringBytes s3 = (Inr (), s4)"
    "setPayloadKey opts d ''graph-source'' (graphSource opts) stringBytes s4 = (Inr (), s5)"
    "setPayloadKey opts d ''graph-name'' (graphName u) stringBytes s5 = (Inr (), s6)"
    "getConsistencyName e (graphReadConsistency u) s6 = (Inr readName, s7)"
    "setPayloadKey opts d ''graph-read-consistency'' readName stringBytes s7 = (Inr (), s8)"
    "getConsistencyName e (graphWriteConsistency u) s8 = (Inr writeName, s9)"
    "\<exists>s10. setPayloadKey opts d ''graph-write-consistency'' writeName stringBytes s9 = (Inr (), s10) \<and>
       setPayloadKey opts d ''request-timeout''
         (if greaterThanZero (readTimeout opts) then readTimeout opts else Null) longBuffer s10 = (Inr (), s')"
    "r = ArgObject opts"
  using assms unfolding createQueryOptions_def Let_def
  by (simp add: ret_def) (elim bind_InrE, auto simp: ret_def)

lemma createQueryOptions_defaultsE:
  assumes "createQueryOptions pm e baseOptions drp arg s = (Inr r, s')"
    and "getProfile pm (profileNameOf arg) = Some p"
    and "\<And>u. arg = ArgObject u \<Longrightarrow> noGraphPayloadOptions u"
  obtains d where "getDefaultGraphOptions pm e baseOptions drp p s = (Inr d, s')"
    and "r = (case arg of
                ArgObject u \<Rightarrow> ArgObject ((utils_extend d u)\<lparr>customPayload := customPayload d\<rparr>)
              | _ \<Rightarrow> ArgObject d)"
  using assms unfolding createQueryOptions_def Let_def
  by (cases arg) (auto simp: ret_def elim!: bind_InrE)

lemma ifUndefined_Val: "d = Val x \<Longrightarrow> v \<noteq> Null \<Longrightarrow> \<exists>y. ifUndefined v d = Val y"
  by (cases v) (simp_all add: ifUndefined_def)

lemma setPayloadKey_resolved:
  assumes "setPayloadKey opts d key v conv s = (Inr (), s')" and "customPayload opts = Val a"
    and "customPayload d = Val r"
  shows "entry s' a key = resolvedEntry (map_js conv v) (entry s r key) (entry s a key)"
  using setPayloadKey_same [OF assms(1,2)] assms(3)
  by (cases v) (simp_all add: resolvedEntry_def)

lemma createQueryOptions_rebuilt:
  assumes run: "createQueryOptions pm e baseOptions drp (ArgObject u) s = (Inr r, s')"
    and prof: "getProfile pm (executionProfile u) = Some p"
    and rebuilt: "\<not> noGraphPayloadOptions u"
    and ok: "cacheOK e s"
  obtains d s1 a r0 opts readName writeName s6 s7 s8 s9 where
    "getDefaultGraphOptions pm e baseOptions drp p s = (Inr d, s1)"
    "customPayload d = Val r0" "r0 < a" "a = nextRef s1"
    "opts = (utils_extend d u)\<lparr>customPayload := Val a\<rparr>" "r = ArgObject opts"
    "\<And>k. k \<noteq> a \<Longrightarrow> payloads s' k = payloads s1 k"
    "getConsistencyName e (graphReadConsistency u) s6 = (Inr readName, s7)"
    "getConsistencyName e (graphWriteConsistency u) s8 = (Inr writeName, s9)"
    "proxyExecuteKey e \<noteq> ''graph-language'' \<Longrightarrow>
       entry s' a ''graph-language'' =
         resolvedEntry (map_js stringBytes (graphLanguage opts)) (entry s1 r0 ''graph-language'')
           (callerEntry s1 (ArgObject u) ''graph-language'')"
    "proxyExecuteKey e \<noteq> ''graph-source'' \<Longrightarrow>
       entry s' a ''graph-source'' =
         resolvedEntry (map_js stringBytes (graphSource opts)) (entry s1 r0 ''graph-source'')
           (callerEntry s1 (ArgObject u) ''graph-source'')"
    "proxyExecuteKey e \<noteq> ''graph-name'' \<Longrightarrow>
       entry s' a ''graph-name'' =
         resolvedEntry (map_js stringBytes (graphName u)) (entry s1 r0 ''graph-name'')
           (callerEntry s1 (ArgObject u) ''graph-name'')"
    "proxyExecuteKey e \<noteq> ''graph-read-consistency'' \<Longrightarrow>
       entry s' a ''graph-read-consistency'' =
         resolvedEntry (map_js stringBytes readName) (entry s1 r0 ''graph-read-consistency'')
           (callerEntry s1 (ArgObject u) ''graph-read-consistency'')"
    "proxyExecuteKey e \<noteq> ''graph-write-consistency'' \<Longrightarrow>
       entry s' a ''graph-write-consistency'' =
         resolvedEntry (map_js stringBytes writeName) (entry s1 r0 ''graph-write-consistency'')
           (callerEntry s1 (ArgObject u) ''graph-write-consistency'')"
    "proxyExecuteKey e \<noteq> ''request-timeout'' \<Longrightarrow>
       entry s' a ''request-timeout'' =
         resolvedEntry (map_js longBuffer (if greaterThanZero (readTimeout opts) then readTimeout opts else Null))
           (entry s1 r0 ''request-timeout'') (callerEntry s1 (ArgObject u) ''request-timeout'')"
proof -
  from run prof rebuilt
  obtain d s1 a s2 s3 s4 s5 s6 s7 s8 s9 readName writeName opts where
    dflt: "getDefaultGraphOptions pm e baseOptions drp p s = (Inr d, s1)"
    and start: "(case customPayload u of Val c \<Rightarrow> clonePayload c | _ \<Rightarrow> newPayload []) s1 = (Inr a, s2)"
    and opts: "opts = (utils_extend d u)\<lparr>customPayload := Val a\<rparr>"
    and px: "setPayloadKey opts d (proxyExecuteKey e) (executeAs u) stringBytes s2 = (Inr (), s3)"
    and lang: "setPayloadKey opts d ''graph-language'' (graphLanguage opts) stringBytes s3 = (Inr (), s4)"
    and src: "setPayloadKey opts d ''graph-source'' (graphSource opts) stringBytes s4 = (Inr (), s5)"
    and nm: "setPayloadKey opts d ''graph-name'' (graphName u) stringBytes s5 = (Inr (), s6)"
    and rd: "getConsistencyName e (graphReadConsistency u) s6 = (Inr readName, s7)"
    and rdk: "setPayloadKey opts d ''graph-read-consistency'' readName stringBytes s7 = (Inr (), s8)"
    and wr: "getConsistencyName e (graphWriteConsistency u) s8 = (Inr writeName, s9)"
    and last: "\<exists>s10. setPayloadKey opts d ''graph-write-consistency'' writeName stringBytes s9 = (Inr (), s10) \<and>
       setPayloadKey opts d ''request-timeout''
         (if greaterThanZero (readTimeout opts) then readTimeout opts else Null) longBuffer s10 = (Inr (), s')"
    and r: "r = ArgObject opts"
    by (rule createQueryOptions_rebuiltE)
  from last obtain s10 where
    wrk: "setPayloadKey opts d ''graph-write-consistency'' writeName stringBytes s9 = (Inr (), s10)"
    and rt: "setPayloadKey opts d ''request-timeout''
         (if greaterThanZero (readTimeout opts) then readTimeout opts else Null) longBuffer s10 = (Inr (), s')"
    by blast
  have cp: "customPayload opts = Val a"
    by (simp add: opts)
  have "defaultsOK e s1 d"
    using getDefaultGraphOptions_cacheOK [OF ok dflt] by simp
  then obtain r0 where r0: "customPayload d = Val r0" "r0 < nextRef s1"
    unfolding defaultsOK_def by blast
  note st = payloadStart_entry [OF start]
  from st(1) r0(2) have r0a: "r0 < a" "r0 \<noteq> a" by simp_all
  have f2: "payloads s2 k = payloads s1 k" if "k \<noteq> a" for k
    using that by (rule st(4))
  have f3: "payloads s3 k = payloads s1 k" if "k \<noteq> a" for k
    using that by (simp add: setPayloadKey_frame(2) [OF px cp] f2)
  have f4: "payloads s4 k = payloads s1 k" if "k \<noteq> a" for k
    using that by (simp add: setPayloadKey_frame(2) [OF lang cp] f3)
  have f5: "payloads s5 k = payloads s1 k" if "k \<noteq> a" for k
    using that by (simp add: setPayloadKey_frame(2) [OF src cp] f4)
  have f6: "payloads s6 k = payloads s1 k" if "k \<noteq> a" for k
    using that by (simp add: setPayloadKey_frame(2) [OF nm cp] f5)
  have f7: "payloads s7 k = payloads s1 k" if "k \<noteq> a" for k
    using that by (simp add: getConsistencyName_payloads(1) [OF rd] f6)
  have f8: "payloads s8 k = payloads s1 k" if "k \<noteq> a" for k
    using that by (simp add: setPayloadKey_frame(2) [OF rdk cp] f7)
  have f9: "payloads s9 k = payloads s1 k" if "k \<noteq> a" for k
    using that by (simp add: getConsistencyName_payloads(1) [OF wr] f8)
  have f10: "payloads s10 k = payloads s1 k" if "k \<noteq> a" for k
    using that by (simp add: setPayloadKey_frame(2) [OF wrk cp] f9)
  have f': "payloads s' k = payloads s1 k" if "k \<noteq> a" for k
    using that by (simp add: setPayloadKey_frame(2) [OF rt cp] f10)
  have e3: "entry s3 a key = callerEntry s1 (ArgObject u) key"
    if "proxyExecuteKey e \<noteq> key" for key
    using that st(3) [of key] by (simp add: setPayloadKey_other [OF px cp])
  note res = setPayloadKey_resolved [OF _ cp r0(1)]
  have d3: "entry s3 r0 key = entry s1 r0 key" and d4: "entry s4 r0 key = entry s1 r0 key"
    and d5: "entry s5 r0 key = entry s1 r0 key" and d7: "entry s7 r0 key = entry s1 r0 key"
    and d9: "entry s9 r0 key = entry s1 r0 key" and d10: "entry s10 r0 key = entry s1 r0 key" for key
    by (simp_all add: entry_def f3 f4 f5 f7 f9 f10 r0a(2))
  have a4: "entry s4 a key = entry s3 a key" if "key \<noteq> ''graph-language''" for key
    using lang cp that by (rule setPayloadKey_other)
  have a5: "entry s5 a key = entry s4 a key" if "key \<noteq> ''graph-source''" for key
    using src cp that by (rule setPayloadKey_other)
  have a6: "entry s6 a key = entry s5 a key" if "key \<noteq> ''graph-name''" for key
    using nm cp that by (rule setPayloadKey_other)
  have a7: "entry s7 a key = entry s6 a key" for key
    using rd by (rule getConsistencyName_entry)
  have a8: "entry s8 a key = entry s7 a key" if "key \<noteq> ''graph-read-consistency''" for key
    using rdk cp that by (rule setPayloadKey_other)
  have a9: "entry s9 a key = entry s8 a key" for key
    using wr by (rule getConsistencyName_entry)
  have a10: "entry s10 a key = entry s9 a key" if "key \<noteq> ''graph-write-consistency''" for key
    using wrk cp that by (rule setPayloadKey_other)
  have a': "entry s' a key = entry s10 a key" if "key \<noteq> ''request-timeout''" for key
    using rt cp that by (rule setPayloadKey_other)
  have k1: "entry s' a ''graph-language'' =
         resolvedEntry (map_js stringBytes (graphLanguage opts)) (entry s1 r0 ''graph-language'')
           (callerEntry s1 (ArgObject u) ''graph-language'')"
    if "proxyExecuteKey e \<noteq> ''graph-language''"
    by (simp only: a' a10 a9 a8 a7 a6 a5 res [OF lang] d3 e3 [OF that] list.inject char.inject simp_thms
        not_False_eq_True)
  have k2: "entry s' a ''graph-source'' =
         resolvedEntry (map_js stringBytes (graphSource opts)) (entry s1 r0 ''graph-source'')
           (callerEntry s1 (ArgObject u) ''graph-source'')"
    if "proxyExecuteKey e \<noteq> ''graph-source''"
    by (simp add: a' a10 a9 a8 a7 a6 res [OF src] d4 a4 e3 [OF that])
  have k3: "entry s' a ''graph-name'' =
         resolvedEntry (map_js stringBytes (graphName u)) (entry s1 r0 ''graph-name'')
           (callerEntry s1 (ArgObject u) ''graph-name'')"
    if "proxyExecuteKey e \<noteq> ''graph-name''"
    by (simp add: a' a10 a9 a8 a7 res [OF nm] d5 a5 a4 e3 [OF that])
  have k4: "entry s' a ''graph-read-consistency'' =
         resolvedEntry (map_js stringBytes readName) (entry s1 r0 ''graph-read-consistency'')
           (callerEntry s1 (ArgObject u) ''graph-read-consistency'')"
    if "proxyExecuteKey e \<noteq> ''graph-read-consistency''"
    by (simp add: a' a10 a9 res [OF rdk] d7 a7 a6 a5 a4 e3 [OF that])
  have k5: "entry s' a ''graph-write-consistency'' =
         resolvedEntry (map_js stringBytes writeName) (entry s1 r0 ''graph-write-consistency'')
           (callerEntry s1 (ArgObject u) ''graph-write-consistency'')"
    if "proxyExecuteKey e \<noteq> ''graph-write-consistency''"
    by (simp add: a' res [OF wrk] d9 a9 a8 a7 a6 a5 a4 e3 [OF that])
  have k6: "entry s' a ''request-timeout'' =
         resolvedEntry (map_js longBuffer (if greaterThanZero (readTimeout opts) then readTimeout opts else Null))
           (entry s1 r0 ''request-timeout'') (callerEntry s1 (ArgObject u) ''request-timeout'')"
    if "proxyExecuteKey e \<noteq> ''request-timeout''"
    by (simp add: res [OF rt] d10 a10 a9 a8 a7 a6 a5 a4 e3 [OF that])
  from dflt r0(1) r0a(1) st(1) opts r f' rd wr k1 k2 k3 k4 k5 k6 show ?thesis
    by (rule that)
qed

lemma getDefaultGraphOptions_cached:
  assumes "getDefaultGraphOptions pm e baseOptions drp p s = (Inr d, s')"
  shows "graphOptionsCache s' (ident p) = Some d"
proof (cases "graphOptionsCache s (ident p)")
  case None
  with assms show ?thesis
    by (auto simp: getDefaultGraphOptions_def getOrCreate_miss split: prod.splits sum.splits)
next
  case (Some d')
  with assms show ?thesis
    by (simp add: getDefaultGraphOptions_def getOrCreate_hit)
qed

lemma getDefaultGraphOptions_hit:
  "graphOptionsCache s (ident p) = Some d \<Longrightarrow>
   getDefaultGraphOptions pm e baseOptions drp p s = (Inr d, s)"
  by (simp add: getDefaultGraphOptions_def getOrCreate_hit)

lemma suppliesNoGraphOption_fast:
  "suppliesNoGraphOption (ArgObject u) \<Longrightarrow> noGraphPayloadOptions u"
  by (simp add: noGraphPayloadOptions_def)

lemma createQueryOptions_fast:
  assumes "getProfile pm (profileNameOf arg) = Some p"
    and "getDefaultGraphOptions pm e baseOptions drp p s = (Inr d, s1)"
    and "\<And>u. arg = ArgObject u \<Longrightarrow> noGraphPayloadOptions u"
  shows "createQueryOptions pm e baseOptions drp arg s =
    (Inr (case arg of
            ArgObject u \<Rightarrow> ArgObject ((utils_extend d u)\<lparr>customPayload := customPayload d\<rparr>)
          | _ \<Rightarrow> ArgObject d), s1)"
  using assms unfolding createQueryOptions_def Let_def
  by (cases arg) (simp_all add: bind_Inr ret_def)

lemma resolvedEntry_simps [simp]:
  "resolvedEntry Null inherited own = own"
  "resolvedEntry (Val b) inherited own = Some b"
  "resolvedEntry Undefined inherited own = (case inherited of Some b \<Rightarrow> Some b | None \<Rightarrow> own)"
  by (simp_all add: resolvedEntry_def)

lemma callerEntry_later:
  assumes "callerPayloadExists s arg" and "afterCall e k s s1"
  shows "callerEntry s1 arg key = callerEntry s arg key"
proof (cases arg)
  case (ArgObject u)
  show ?thesis
  proof (cases "customPayload u")
    case (Val c)
    with assms(1) ArgObject have "c < nextRef s" by simp
    with assms(2) have "payloads s1 c = payloads s c"
      by (simp add: afterCall_def)
    with ArgObject Val show ?thesis
      by (simp add: entry_def)
  qed (simp_all add: ArgObject)
qed simp_all

lemma greaterThanZero_timeoutEntry:
  "greaterThanZero t \<Longrightarrow> \<exists>n. t = Val n \<and> 0 < n \<and> timeoutEntry t = Some (longBuffer n)"
  by (cases t) (simp_all add: timeoutEntry_def)

lemma not_greaterThanZero_timeoutEntry: "\<not> greaterThanZero t \<Longrightarrow> timeoutEntry t = None"
  by (cases t) (simp_all add: timeoutEntry_def)

lemma request_timeout_entry:
  assumes ok: "cacheOK e s" and px: "proxyExecuteKey e \<noteq> ''request-timeout''"
    and prof: "getProfile pm (profileNameOf arg) = Some p"
    and ex: "callerPayloadExists s arg"
    and run: "createQueryOptions pm e baseOptions drp arg s = (Inr r, s')"
  shows "\<exists>opts a. r = ArgObject opts \<and> customPayload opts = Val a
    \<and> entry s' a ''request-timeout'' =
        (case timeoutEntry (readTimeout opts) of
           Some b \<Rightarrow> Some b
         | None \<Rightarrow> callerEntry s arg ''request-timeout'')"
proof (cases "\<exists>u. arg = ArgObject u \<and> \<not> noGraphPayloadOptions u")
  case False
  then have fast: "\<And>u. arg = ArgObject u \<Longrightarrow> noGraphPayloadOptions u"
    by blast
  from run prof fast obtain d
    where dflt: "getDefaultGraphOptions pm e baseOptions drp p s = (Inr d, s')"
      and r: "r = (case arg of
                ArgObject u \<Rightarrow> ArgObject ((utils_extend d u)\<lparr>customPayload := customPayload d\<rparr>)
              | _ \<Rightarrow> ArgObject d)"
    by (rule createQueryOptions_defaultsE) blast+
  have "defaultsOK e s' d"
    using getDefaultGraphOptions_cacheOK [OF ok dflt] by simp
  with px obtain a where a: "customPayload d = Val a"
    and t: "entry s' a ''request-timeout'' = timeoutEntry (readTimeout d)"
    unfolding defaultsOK_def by blast
  show ?thesis
  proof (cases arg)
    case (ArgObject u)
    with fast have "noGraphPayloadOptions u" by simp
    then have "readTimeout u = Undefined" "\<not> truthyObject (customPayload u)"
      by (simp_all add: noGraphPayloadOptions_def)
    then have "readTimeout (utils_extend d u) = readTimeout d"
      and "callerEntry s arg ''request-timeout'' = None"
      by (cases "customPayload u"; simp add: ifUndefined_def ArgObject)+
    with r a t ArgObject show ?thesis
      by (simp split: option.splits)
  qed (use r a t in \<open>simp_all split: option.splits\<close>)
next
  case True
  then obtain u where arg: "arg = ArgObject u" and rebuilt: "\<not> noGraphPayloadOptions u"
    by blast
  from prof have prof': "getProfile pm (executionProfile u) = Some p"
    by (simp add: arg)
  from run [unfolded arg] prof' rebuilt ok
  obtain d s1 a r0 opts where
    dflt: "getDefaultGraphOptions pm e baseOptions drp p s = (Inr d, s1)"
    and opts: "opts = (utils_extend d u)\<lparr>customPayload := Val a\<rparr>" and r: "r = ArgObject opts"
    and k: "proxyExecuteKey e \<noteq> ''request-timeout'' \<Longrightarrow>
       entry s' a ''request-timeout'' =
         resolvedEntry (map_js longBuffer (if greaterThanZero (readTimeout opts) then readTimeout opts else Null))
           (entry s1 r0 ''request-timeout'') (callerEntry s1 (ArgObject u) ''request-timeout'')"
    by (rule createQueryOptions_rebuilt) (rule that; assumption)
  have "afterCall e (ident p) s s1"
    using afterCall_getDefaultGraphOptions [of e p s pm baseOptions drp] dflt by simp
  with ex have own: "callerEntry s1 arg ''request-timeout'' = callerEntry s arg ''request-timeout''"
    by (rule callerEntry_later)
  have "entry s' a ''request-timeout'' =
        (case timeoutEntry (readTimeout opts) of
           Some b \<Rightarrow> Some b
         | None \<Rightarrow> callerEntry s arg ''request-timeout'')"
  proof (cases "greaterThanZero (readTimeout opts)")
    case True
    from greaterThanZero_timeoutEntry [OF True] obtain n
      where "readTimeout opts = Val n" "timeoutEntry (readTimeout opts) = Some (longBuffer n)"
      by blast
    with k [OF px] True show ?thesis by simp
  next
    case False
    with k [OF px] own [unfolded arg] show ?thesis
      by (simp add: not_greaterThanZero_timeoutEntry arg del: callerEntry.simps)
  qed
  with r opts show ?thesis by simp
qed

lemma getConsistencyName_Null_result:
  "getConsistencyName e Null s = (Inr n, s') \<Longrightarrow> n = Undefined"
  by (simp add: getConsistencyName_def ret_def)

subsection \<open>Unknown consistency levels\<close>

lemma wellFormedTable_name:
  assumes "wellFormedTable e" and "(n, c) \<in> set (consistencies e)"
  shows "n \<noteq> []"
proof
  assume "n = []"
  with assms(2) have "fst ([], c) \<in> fst ` set (consistencies e)"
    by (intro imageI) simp
  with assms(1) show False
    by (simp add: wellFormedTable_def)
qed

lemma loadedNames_registered_nonempty:
  assumes "wellFormedTable e" and "c \<in> snd ` set (consistencies e)"
  shows "\<exists>n. map_of (loadedNames e) (Val c) = Some n \<and> n \<noteq> []"
proof -
  from assms(2) obtain n where mem: "(n, c) \<in> set (consistencies e)"
    by auto
  from assms(1) have d1: "distinct (map fst (consistencies e))"
    and d2: "distinct (map snd (consistencies e))"
    by (simp_all add: wellFormedTable_def)
  from assms(1) mem have "n \<noteq> []"
    by (rule wellFormedTable_name)
  then have "canonicalName n \<noteq> []"
    by (simp add: canonicalName_Nil)
  with loadedNames_registered [OF d1 d2 mem] show ?thesis
    by simp
qed

lemma getConsistencyName_result:
  assumes "wellFormedTable e" and "namesLoaded e s"
  shows "if unregistered e c
         then \<exists>code. c = Val code \<and>
                getConsistencyName e c s =
                  (Inl (UnknownConsistencyLevel code), s\<lparr>consistencyNames := Some (loadedNames e)\<rparr>)
         else \<exists>n s'. getConsistencyName e c s = (Inr n, s') \<and> namesLoaded e s'
                \<and> payloads s' = payloads s \<and> nextRef s' = nextRef s"
proof (cases c)
  case (Val code)
  show ?thesis
  proof (cases "code \<in> snd ` set (consistencies e)")
    case True
    from loadedNames_registered_nonempty [OF assms(1) True] obtain n
      where "map_of (loadedNames e) (Val code) = Some n" "n \<noteq> []" by blast
    with assms(2) Val True show ?thesis
      by (simp add: getConsistencyName_Val unregistered_def namesLoaded_def)
  next
    case False
    with assms(2) Val show ?thesis
      by (simp add: getConsistencyName_Val unregistered_def loadedNames_unregistered)
  qed
qed (use assms(2) in \<open>simp_all add: unregistered_def getConsistencyName_def ret_def\<close>)

lemma setPayloadKey_total:
  assumes "customPayload opts = Val a" and "customPayload d = Val r"
  shows "\<exists>s'. setPayloadKey opts d key v conv s = (Inr (), s')
           \<and> consistencyNames s' = consistencyNames s"
  using assms
  by (cases v) (auto simp: setPayloadKey_def assignKey_Val ret_def split: option.splits)

lemma payloadStart_total:
  "\<exists>a s'. (case c of Val u \<Rightarrow> clonePayload u | _ \<Rightarrow> newPayload []) s = (Inr a, s')
     \<and> consistencyNames s' = consistencyNames s"
  by (cases c) (simp_all add: clonePayload_def newPayload_def)

lemma namesLoaded_cong: "consistencyNames s' = consistencyNames s \<Longrightarrow> namesLoaded e s' = namesLoaded e s"
  by (simp add: namesLoaded_def)

lemma namesLoaded_afterCall: "namesLoaded e s \<Longrightarrow> afterCall e k s s' \<Longrightarrow> namesLoaded e s'"
  by (auto simp: namesLoaded_def afterCall_def)

lemma unknown_propagates:
  assumes wf: "wellFormedTable e" and nl: "namesLoaded e s" and ok: "cacheOK e s"
    and prof: "getProfile pm (executionProfile u) = Some p"
    and dflt: "getDefaultGraphOptions pm e baseOptions drp p s = (Inr d, s1)"
  shows "(unregistered e (graphReadConsistency u) \<longrightarrow>
            (\<exists>code. graphReadConsistency u = Val code \<and>
               fst (createQueryOptions pm e baseOptions drp (ArgObject u) s) = Inl (UnknownConsistencyLevel code)))
       \<and> (\<not> unregistered e (graphReadConsistency u) \<and> unregistered e (graphWriteConsistency u) \<longrightarrow>
            (\<exists>code. graphWriteConsistency u = Val code \<and>
               fst (createQueryOptions pm e baseOptions drp (ArgObject u) s) = Inl (UnknownConsistencyLevel code)))"
proof (cases "unregistered e (graphReadConsistency u) \<or> unregistered e (graphWriteConsistency u)")
  case False
  then show ?thesis by simp
next
  case True
  then have rebuilt: "\<not> noGraphPayloadOptions u"
    by (auto simp: noGraphPayloadOptions_def unregistered_def)
  have "defaultsOK e s1 d"
    using getDefaultGraphOptions_cacheOK [OF ok dflt] by simp
  then obtain r0 where r0: "customPayload d = Val r0"
    unfolding defaultsOK_def by blast
  have nl1: "namesLoaded e s1"
    using nl afterCall_getDefaultGraphOptions [of e p s pm baseOptions drp] dflt
    by (auto intro: namesLoaded_afterCall)
  obtain a s2 where start: "(case customPayload u of Val c \<Rightarrow> clonePayload c | _ \<Rightarrow> newPayload []) s1 = (Inr a, s2)"
    and n2: "consistencyNames s2 = consistencyNames s1"
    using payloadStart_total by blast
  define opts where "opts = (utils_extend d u)\<lparr>customPayload := Val a\<rparr>"
  have cp: "customPayload opts = Val a" by (simp add: opts_def)
  note total = setPayloadKey_total [OF cp r0]
  obtain s3 where px: "setPayloadKey opts d (proxyExecuteKey e) (executeAs u) stringBytes s2 = (Inr (), s3)"
    and n3: "consistencyNames s3 = consistencyNames s2"
    using total by blast
  obtain s4 where lang: "setPayloadKey opts d ''graph-language'' (graphLanguage opts) stringBytes s3 = (Inr (), s4)"
    and n4: "consistencyNames s4 = consistencyNames s3"
    using total by blast
  obtain s5 where src: "setPayloadKey opts d ''graph-source'' (graphSource opts) stringBytes s4 = (Inr (), s5)"
    and n5: "consistencyNames s5 = consistencyNames s4"
    using total by blast
  obtain s6 where nm: "setPayloadKey opts d ''graph-name'' (graphName u) stringBytes s5 = (Inr (), s6)"
    and n6: "consistencyNames s6 = consistencyNames s5"
    using total by blast
  have nl6: "namesLoaded e s6"
    using nl1 by (simp add: namesLoaded_def n6 n5 n4 n3 n2)
  have upto: "createQueryOptions pm e baseOptions drp (ArgObject u) s =
      bind (getConsistencyName e (graphReadConsistency u)) (\<lambda>readName.
      bind (setPayloadKey opts d ''graph-read-consistency'' readName stringBytes) (\<lambda>_.
      bind (getConsistencyName e (graphWriteConsistency u)) (\<lambda>writeName.
      bind (setPayloadKey opts d ''graph-write-consistency'' writeName stringBytes) (\<lambda>_.
      bind (setPayloadKey opts d ''request-timeout''
              (if greaterThanZero (readTimeout opts) then readTimeout opts else Null) longBuffer) (\<lambda>_.
      ret (ArgObject opts)))))) s6"
    unfolding createQueryOptions_def Let_def
    using prof dflt rebuilt start px lang src nm
    by (simp add: bind_Inr opts_def)
  show ?thesis
  proof (cases "unregistered e (graphReadConsistency u)")
    case True
    with getConsistencyName_result [OF wf nl6, of "graphReadConsistency u"]
    obtain code where "graphReadConsistency u = Val code"
      and "getConsistencyName e (graphReadConsistency u) s6 =
             (Inl (UnknownConsistencyLevel code), s6\<lparr>consistencyNames := Some (loadedNames e)\<rparr>)"
      by auto
    with True show ?thesis
      by (simp add: upto bind_Inl)
  next
    case False
    with getConsistencyName_result [OF wf nl6, of "graphReadConsistency u"]
    obtain readName s7 where rd: "getConsistencyName e (graphReadConsistency u) s6 = (Inr readName, s7)"
      and nl7: "namesLoaded e s7"
      by auto
    obtain s8 where rdk: "setPayloadKey opts d ''graph-read-consistency'' readName stringBytes s7 = (Inr (), s8)"
      and n8: "consistencyNames s8 = consistencyNames s7"
      using total by blast
    have nl8: "namesLoaded e s8"
      using nl7 by (simp add: namesLoaded_def n8)
    show ?thesis
    proof (cases "unregistered e (graphWriteConsistency u)")
      case True
      with getConsistencyName_result [OF wf nl8, of "graphWriteConsistency u"]
      obtain code where "graphWriteConsistency u = Val code"
        and "getConsistencyName e (graphWriteConsistency u) s8 =
             (Inl (UnknownConsistencyLevel code), s8\<lparr>consistencyNames := Some (loadedNames e)\<rparr>)"
        by auto
      with False True rd rdk show ?thesis
        by (simp add: upto bind_Inr bind_Inl)
    next
      case no: False
      with False show ?thesis by simp
    qed
  qed
qed

subsection \<open>Running the client\<close>

lemma loadedNames_driverEnv:
  "loadedNames driverEnv = [(Val 0, ''ANY''), (Val 1, ''ONE''), (Val 2, ''TWO''), (Val 3, ''THREE''),
     (Val 4, ''QUORUM''), (Val 5, ''ALL''), (Val 6, ''LOCAL_QUORUM''), (Val 7, ''EACH_QUORUM''),
     (Val 8, ''SERIAL''), (Val 9, ''LOCAL_SERIAL''), (Val 10, ''LOCAL_ONE'')]"
  by (simp add: loadedNames_def driverEnv_def consistencyCode_def toUpperCase_def upperChar_def)

lemma proxyExecuteKey_driverEnv: "proxyExecuteKey driverEnv = ''ProxyExecute''"
  by (simp add: driverEnv_def)

lemmas run_simps = getDefaultGraphOptions_def getOrCreateGraphOptions_def createDefaultOptions_def
  emptyObject_def logicalOr_def ifUndefined_def ifUndefined3_def newPayload_def setKey_def
  getConsistencyName_def loadConsistencyNames_def bind_def ret_def throw_def
  clientProfiles_def clientBaseOptions_def defaultProfile_def ep1_def noOptions_def
  createQueryOptions_def utils_extend_def noGraphPayloadOptions_def setPayloadKey_def assignKey_def
  clonePayload_def entry_def Let_def proxyExecuteKey_driverEnv loadedNames_driverEnv
  clientCall_def callerOptions_def callerResult_def clientDefaults_def

lemma defaults_freshState:
  "getDefaultGraphOptions clientProfiles driverEnv clientBaseOptions (Val (RetryPolicy 7))
     defaultProfile freshState = (Inr clientDefaults, warmState)"
  by (simp add: run_simps freshState_def warmState_def)

lemma defaults_ep1:
  "fst (getDefaultGraphOptions clientProfiles driverEnv clientBaseOptions (Val (RetryPolicy 7))
     ep1 freshState) =
   Inr (noOptions\<lparr>customPayload := Val 0, graphLanguage := Val ''gremlin-groovy'',
     graphSource := Val ''g'', readTimeout := Val 5000, retry := Val (RetryPolicy 0)\<rparr>)"
  by (simp add: run_simps freshState_def)

lemma clientCall_no_options:
  "clientCall ArgUndefined freshState = (Inr (ArgObject clientDefaults), warmState)"
  using defaults_freshState
  by (simp add: clientCall_def createQueryOptions_def bind_Inr ret_def clientProfiles_def)

lemma clientCall_callerOptions:
  "fst (clientCall (ArgObject callerOptions) freshState) = Inr (ArgObject callerResult)"
  by (simp add: run_simps freshState_def)

lemma run_pair: "fst x = r \<Longrightarrow> x = (r, snd x)"
  by (cases x) simp

lemma cacheOK_freshState: "cacheOK e freshState"
  by (simp add: cacheOK_def freshState_def)

lemma cacheOK_callerState: "cacheOK e callerState"
  by (simp add: cacheOK_def callerState_def)

subsection \<open>The retry policy of the defaults, on the client\<close>

theorem cached_retry_by_profile_kind_witness:
  "graphOptionsCache freshState (ident defaultProfile) = None
   \<and> getDefaultGraphOptions clientProfiles driverEnv clientBaseOptions (Val (RetryPolicy 7))
        defaultProfile freshState = (Inr clientDefaults, warmState)
   \<and> profile_retry defaultProfile = Val (RetryPolicy 1)
   \<and> graphOptionsCache warmState (ident defaultProfile) = Some clientDefaults
   \<and> retry clientDefaults = Val (RetryPolicy 7)"
proof -
  have h: "graphOptionsCache freshState (ident defaultProfile) = None"
    by (simp add: freshState_def)
  from cached_retry_by_profile_kind [OF h defaults_freshState] h defaults_freshState
  show ?thesis
    by (simp add: clientProfiles_def defaultProfile_def)
qed

subsection \<open>Calls without graph options\<close>

text \<open>
  C3. When the caller passes no options, \<open>null\<close> or only a callback, \<open>createQueryOptions\<close>
  returns the default options that are cached for the profile, the cached object itself.
  When the caller passes an options object with none of \<open>customPayload\<close>, \<open>graphLanguage\<close>,
  \<open>graphSource\<close>, \<open>executeAs\<close>, \<open>graphName\<close>, \<open>graphReadConsistency\<close>,
  \<open>graphWriteConsistency\<close>, \<open>readTimeout\<close>, the options returned carry the payload reference
  of the cached defaults. A second such call on the same profile returns the same payload
  reference and leaves the state as it is: no payload object is created, nothing is
  encoded again.
\<close>

theorem defaults_payload_reused:
  assumes "getProfile profileManager (profileNameOf arg) = Some p"
    and "getProfile profileManager (profileNameOf arg') = Some p"
    and "suppliesNoGraphOption arg" and "suppliesNoGraphOption arg'"
    and "createQueryOptions profileManager e baseOptions defaultRetryPolicy arg s = (Inr r, s')"
  shows "\<exists>d r'. graphOptionsCache s' (ident p) = Some d
    \<and> payloadOf r = customPayload d
    \<and> (arg \<in> {ArgUndefined, ArgNull, ArgFunction} \<longrightarrow> r = ArgObject d)
    \<and> createQueryOptions profileManager e baseOptions defaultRetryPolicy arg' s' = (Inr r', s')
    \<and> payloadOf r' = customPayload d
    \<and> (arg' \<in> {ArgUndefined, ArgNull, ArgFunction} \<longrightarrow> r' = ArgObject d)"
proof -
  have fast: "noGraphPayloadOptions u" if "arg = ArgObject u" for u
    using assms(3) that by (simp add: suppliesNoGraphOption_fast)
  have fast': "noGraphPayloadOptions u" if "arg' = ArgObject u" for u
    using assms(4) that by (simp add: suppliesNoGraphOption_fast)
  from assms(5,1) fast obtain d
    where run: "getDefaultGraphOptions profileManager e baseOptions defaultRetryPolicy p s = (Inr d, s')"
      and r: "r = (case arg of
                ArgObject u \<Rightarrow> ArgObject ((utils_extend d u)\<lparr>customPayload := customPayload d\<rparr>)
              | _ \<Rightarrow> ArgObject d)"
    by (rule createQueryOptions_defaultsE) blast+
  from run have cached: "graphOptionsCache s' (ident p) = Some d"
    by (rule getDefaultGraphOptions_cached)
  then have again: "getDefaultGraphOptions profileManager e baseOptions defaultRetryPolicy p s' = (Inr d, s')"
    by (rule getDefaultGraphOptions_hit)
  define r' where "r' = (case arg' of
                ArgObject u \<Rightarrow> ArgObject ((utils_extend d u)\<lparr>customPayload := customPayload d\<rparr>)
              | _ \<Rightarrow> ArgObject d)"
  have second: "createQueryOptions profileManager e baseOptions defaultRetryPolicy arg' s' = (Inr r', s')"
    unfolding r'_def using assms(2) again fast' by (rule createQueryOptions_fast)
  have "payloadOf r = customPayload d" and "arg \<in> {ArgUndefined, ArgNull, ArgFunction} \<longrightarrow> r = ArgObject d"
    unfolding r by (cases arg; simp)+
  moreover have "payloadOf r' = customPayload d"
    and "arg' \<in> {ArgUndefined, ArgNull, ArgFunction} \<longrightarrow> r' = ArgObject d"
    unfolding r'_def by (cases arg'; simp)+
  ultimately show ?thesis
    using cached second by blast
qed

theorem defaults_payload_reused_witness:
  "getProfile clientProfiles (profileNameOf ArgUndefined) = Some defaultProfile
   \<and> getProfile clientProfiles (profileNameOf (ArgObject noOptions)) = Some defaultProfile
   \<and> suppliesNoGraphOption ArgUndefined \<and> suppliesNoGraphOption (ArgObject noOptions)
   \<and> clientCall ArgUndefined freshState = (Inr (ArgObject clientDefaults), warmState)
   \<and> graphOptionsCache warmState (ident defaultProfile) = Some clientDefaults
   \<and> snd (clientCall (ArgObject noOptions) warmState) = warmState
   \<and> fst (clientCall (ArgObject noOptions) warmState)
       = Inr (ArgObject (noOptions\<lparr>customPayload := Val 0, graphLanguage := Val ''gremlin-groovy'',
            graphSource := Val ''g'', readTimeout := Val 0, retry := Val (RetryPolicy 7)\<rparr>))"
proof -
  have h1: "getProfile clientProfiles (profileNameOf ArgUndefined) = Some defaultProfile"
    and h2: "getProfile clientProfiles (profileNameOf (ArgObject noOptions)) = Some defaultProfile"
    by (simp_all add: clientProfiles_def noOptions_def)
  have h3: "suppliesNoGraphOption ArgUndefined" and h4: "suppliesNoGraphOption (ArgObject noOptions)"
    by (simp_all add: noOptions_def)
  note h5 = clientCall_no_options [unfolded clientCall_def]
  from defaults_payload_reused [OF h1 h2 h3 h4 h5] obtain d r'
    where "graphOptionsCache warmState (ident defaultProfile) = Some d"
      and "ArgObject clientDefaults = ArgObject d"
      and "clientCall (ArgObject noOptions) warmState = (Inr r', warmState)"
    by (auto simp: clientCall_def)
  moreover have "fst (clientCall (ArgObject noOptions) warmState)
       = Inr (ArgObject (noOptions\<lparr>customPayload := Val 0, graphLanguage := Val ''gremlin-groovy'',
            graphSource := Val ''g'', readTimeout := Val 0, retry := Val (RetryPolicy 7)\<rparr>))"
    by (simp add: run_simps warmState_def)
  ultimately show ?thesis
    using h1 h2 h3 h4 clientCall_no_options by simp
qed

subsection \<open>The keys of language and source\<close>

text \<open>
  C9, as the claim states it, fails: a caller that passes \<open>null\<close> for \<open>graphLanguage\<close> and
  a graph name gets a payload without the key \<open>graph-language\<close>.
\<close>

theorem language_and_source_keys_counterexample:
  "getProfile clientProfiles (profileNameOf (ArgObject (noOptions\<lparr>graphLanguage := Null, graphName := Val ''g1''\<rparr>)))
     = Some defaultProfile
   \<and> fst (clientCall (ArgObject (noOptions\<lparr>graphLanguage := Null, graphName := Val ''g1''\<rparr>)) freshState)
     = Inr (ArgObject (noOptions\<lparr>customPayload := Val 1, graphLanguage := Null, graphSource := Val ''g'',
          graphName := Val ''g1'', readTimeout := Val 0, retry := Val (RetryPolicy 7)\<rparr>))
   \<and> entry (snd (clientCall (ArgObject (noOptions\<lparr>graphLanguage := Null, graphName := Val ''g1''\<rparr>)) freshState))
       1 ''graph-language'' = None"
  by (simp add: run_simps freshState_def)

text \<open>
  C9, amended. For every call of \<open>createQueryOptions\<close> that finds the profile and returns,
  the payload of the result holds the key \<open>graph-language\<close>, inherited or overridden,
  unless the caller passed \<open>null\<close> for \<open>graphLanguage\<close> in a call that rebuilds the payload;
  and likewise \<open>graph-source\<close> for \<open>graphSource\<close>. The cache is taken to hold only what
  \<open>createDefaultOptions\<close> built, which every call keeps true.
\<close>

theorem language_and_source_keys:
  assumes "cacheOK e s"
    and "getProfile profileManager (profileNameOf arg) = Some p"
    and "createQueryOptions profileManager e baseOptions defaultRetryPolicy arg s = (Inr r, s')"
  shows "\<exists>opts a. r = ArgObject opts \<and> customPayload opts = Val a
    \<and> (\<not> rebuildsWithNull graphLanguage arg \<longrightarrow> entry s' a ''graph-language'' \<noteq> None)
    \<and> (\<not> rebuildsWithNull graphSource arg \<longrightarrow> entry s' a ''graph-source'' \<noteq> None)"
proof (cases "\<exists>u. arg = ArgObject u \<and> \<not> noGraphPayloadOptions u")
  case False
  then have fast: "\<And>u. arg = ArgObject u \<Longrightarrow> noGraphPayloadOptions u"
    by blast
  from assms(3,2) fast obtain d
    where run: "getDefaultGraphOptions profileManager e baseOptions defaultRetryPolicy p s = (Inr d, s')"
      and r: "r = (case arg of
                ArgObject u \<Rightarrow> ArgObject ((utils_extend d u)\<lparr>customPayload := customPayload d\<rparr>)
              | _ \<Rightarrow> ArgObject d)"
    by (rule createQueryOptions_defaultsE) blast+
  have "defaultsOK e s' d"
    using getDefaultGraphOptions_cacheOK [OF assms(1) run] by simp
  then obtain a where a: "customPayload d = Val a"
    and keys: "entry s' a ''graph-language'' \<noteq> None" "entry s' a ''graph-source'' \<noteq> None"
    unfolding defaultsOK_def by blast
  from r a keys show ?thesis
    by (cases arg) simp_all
next
  case True
  then obtain u where arg: "arg = ArgObject u" and rebuilt: "\<not> noGraphPayloadOptions u"
    by blast
  from assms(2) have prof: "getProfile profileManager (executionProfile u) = Some p"
    by (simp add: arg)
  from assms(3) [unfolded arg] prof rebuilt
  obtain d s1 a s2 s3 s4 s5 s6 s7 s8 s9 readName writeName opts where
    run: "getDefaultGraphOptions profileManager e baseOptions defaultRetryPolicy p s = (Inr d, s1)"
    and start: "(case customPayload u of Val c \<Rightarrow> clonePayload c | _ \<Rightarrow> newPayload []) s1 = (Inr a, s2)"
    and opts: "opts = (utils_extend d u)\<lparr>customPayload := Val a\<rparr>"
    and px: "setPayloadKey opts d (proxyExecuteKey e) (executeAs u) stringBytes s2 = (Inr (), s3)"
    and lang: "setPayloadKey opts d ''graph-language'' (graphLanguage opts) stringBytes s3 = (Inr (), s4)"
    and src: "setPayloadKey opts d ''graph-source'' (graphSource opts) stringBytes s4 = (Inr (), s5)"
    and nm: "setPayloadKey opts d ''graph-name'' (graphName u) stringBytes s5 = (Inr (), s6)"
    and rd: "getConsistencyName e (graphReadConsistency u) s6 = (Inr readName, s7)"
    and rdk: "setPayloadKey opts d ''graph-read-consistency'' readName stringBytes s7 = (Inr (), s8)"
    and wr: "getConsistencyName e (graphWriteConsistency u) s8 = (Inr writeName, s9)"
    and last: "\<exists>s10. setPayloadKey opts d ''graph-write-consistency'' writeName stringBytes s9 = (Inr (), s10) \<and>
       setPayloadKey opts d ''request-timeout''
         (if greaterThanZero (readTimeout opts) then readTimeout opts else Null) longBuffer s10 = (Inr (), s')"
    and r: "r = ArgObject opts"
    by (rule createQueryOptions_rebuiltE)
  from last obtain s10 where
    wrk: "setPayloadKey opts d ''graph-write-consistency'' writeName stringBytes s9 = (Inr (), s10)"
    and rt: "setPayloadKey opts d ''request-timeout''
         (if greaterThanZero (readTimeout opts) then readTimeout opts else Null) longBuffer s10 = (Inr (), s')"
    by blast
  have cp: "customPayload opts = Val a"
    by (simp add: opts)
  have "defaultsOK e s1 d"
    using getDefaultGraphOptions_cacheOK [OF assms(1) run] by simp
  then obtain l so where d: "graphLanguage d = Val l" "graphSource d = Val so"
    unfolding defaultsOK_def by blast
  have after5: "entry s' a key = entry s5 a key"
    if "key \<noteq> ''graph-name''" "key \<noteq> ''graph-read-consistency''"
      "key \<noteq> ''graph-write-consistency''" "key \<noteq> ''request-timeout''" for key
    using that
    by (simp add: setPayloadKey_other [OF rt cp] setPayloadKey_other [OF wrk cp]
        getConsistencyName_entry [OF wr] setPayloadKey_other [OF rdk cp]
        getConsistencyName_entry [OF rd] setPayloadKey_other [OF nm cp])
  have gl: "entry s' a ''graph-language'' \<noteq> None" if "graphLanguage u \<noteq> Null"
  proof -
    from ifUndefined_Val [OF d(1) that] obtain y where "graphLanguage opts = Val y"
      by (auto simp: opts)
    then have "entry s4 a ''graph-language'' = Some (stringBytes y)"
      using setPayloadKey_same [OF lang cp] by simp
    then show ?thesis
      by (simp add: after5 setPayloadKey_other [OF src cp])
  qed
  have gs: "entry s' a ''graph-source'' \<noteq> None" if "graphSource u \<noteq> Null"
  proof -
    from ifUndefined_Val [OF d(2) that] obtain y where "graphSource opts = Val y"
      by (auto simp: opts)
    then have "entry s5 a ''graph-source'' = Some (stringBytes y)"
      using setPayloadKey_same [OF src cp] by simp
    then show ?thesis
      by (simp add: after5)
  qed
  from r cp gl gs rebuilt show ?thesis
    by (auto simp: arg)
qed

theorem language_and_source_keys_witness:
  "cacheOK driverEnv freshState
   \<and> getProfile clientProfiles (profileNameOf (ArgObject callerOptions)) = Some defaultProfile
   \<and> clientCall (ArgObject callerOptions) freshState
       = (Inr (ArgObject callerResult), snd (clientCall (ArgObject callerOptions) freshState))
   \<and> \<not> rebuildsWithNull graphLanguage (ArgObject callerOptions)
   \<and> \<not> rebuildsWithNull graphSource (ArgObject callerOptions)
   \<and> entry (snd (clientCall (ArgObject callerOptions) freshState)) 1 ''graph-language'' \<noteq> None
   \<and> entry (snd (clientCall (ArgObject callerOptions) freshState)) 1 ''graph-source'' \<noteq> None"
proof -
  have h2: "getProfile clientProfiles (profileNameOf (ArgObject callerOptions)) = Some defaultProfile"
    by (simp add: clientProfiles_def callerOptions_def noOptions_def)
  have h3: "clientCall (ArgObject callerOptions) freshState
       = (Inr (ArgObject callerResult), snd (clientCall (ArgObject callerOptions) freshState))"
    using clientCall_callerOptions by (rule run_pair)
  have n: "\<not> rebuildsWithNull graphLanguage (ArgObject callerOptions)"
    "\<not> rebuildsWithNull graphSource (ArgObject callerOptions)"
    by (simp_all add: callerOptions_def noOptions_def)
  from language_and_source_keys [OF cacheOK_freshState h2 h3 [unfolded clientCall_def]]
  obtain opts a where "ArgObject callerResult = ArgObject opts" "customPayload opts = Val a"
    and "\<not> rebuildsWithNull graphLanguage (ArgObject callerOptions) \<longrightarrow>
           entry (snd (clientCall (ArgObject callerOptions) freshState)) a ''graph-language'' \<noteq> None"
    and "\<not> rebuildsWithNull graphSource (ArgObject callerOptions) \<longrightarrow>
           entry (snd (clientCall (ArgObject callerOptions) freshState)) a ''graph-source'' \<noteq> None"
    unfolding clientCall_def by blast
  moreover from this(1,2) have "a = 1"
    by (auto simp: callerResult_def noOptions_def)
  ultimately have "entry (snd (clientCall (ArgObject callerOptions) freshState)) 1 ''graph-language'' \<noteq> None"
    and "entry (snd (clientCall (ArgObject callerOptions) freshState)) 1 ''graph-source'' \<noteq> None"
    using n by blast+
  with n h2 h3 cacheOK_freshState [of driverEnv] show ?thesis
    by simp
qed

subsection \<open>Passing null for a graph field\<close>

text \<open>
  C1, as the claim states it, fails. A caller that passes \<open>null\<close> for
  \<open>graphReadConsistency\<close> gets the key \<open>graph-read-consistency\<close> of the defaults
  (\<open>getConsistencyName\<close> turns \<open>null\<close> into \<open>undefined\<close>, which inherits), and a caller that
  passes nothing but \<open>null\<close> for \<open>graphLanguage\<close> gets the payload of the defaults with its
  key \<open>graph-language\<close>.
\<close>

theorem null_suppresses_key_counterexample:
  "readConsistency clientBaseOptions = Val 6
   \<and> fst (clientCall (ArgObject (noOptions\<lparr>graphReadConsistency := Null\<rparr>)) freshState)
     = Inr (ArgObject (noOptions\<lparr>customPayload := Val 1, graphLanguage := Val ''gremlin-groovy'',
          graphSource := Val ''g'', graphReadConsistency := Null, readTimeout := Val 0,
          retry := Val (RetryPolicy 7)\<rparr>))
   \<and> entry (snd (clientCall (ArgObject (noOptions\<lparr>graphReadConsistency := Null\<rparr>)) freshState))
       1 ''graph-read-consistency'' = Some (stringBytes ''LOCAL_QUORUM'')
   \<and> fst (clientCall (ArgObject (noOptions\<lparr>graphLanguage := Null\<rparr>)) freshState)
     = Inr (ArgObject (noOptions\<lparr>customPayload := Val 0, graphLanguage := Null,
          graphSource := Val ''g'', readTimeout := Val 0, retry := Val (RetryPolicy 7)\<rparr>))
   \<and> entry (snd (clientCall (ArgObject (noOptions\<lparr>graphLanguage := Null\<rparr>)) freshState))
       0 ''graph-language'' = Some (stringBytes ''gremlin-groovy'')"
  by (simp add: run_simps freshState_def)

text \<open>
  C1, amended. When the profile is found and the call returns: for \<open>graphName\<close>, \<open>null\<close>
  suppresses the key, the payload of the result holds under \<open>graph-name\<close> only what the
  caller's own payload held, even when the defaults hold a name; for \<open>graphLanguage\<close>
  and \<open>graphSource\<close> the same is true in a call that rebuilds the payload; for
  \<open>graphReadConsistency\<close> and \<open>graphWriteConsistency\<close>, \<open>null\<close> does not suppress: the entry
  of the defaults is inherited when there is one. (The proxy-execute key of the driver
  is taken to be none of these keys, the caller's payload an object that exists, and the
  cache to hold only what \<open>createDefaultOptions\<close> built.)
\<close>

theorem null_suppresses_key:
  assumes ok: "cacheOK e s"
    and prof: "getProfile profileManager (executionProfile u) = Some p"
    and ex: "callerPayloadExists s (ArgObject u)"
    and run: "createQueryOptions profileManager e baseOptions defaultRetryPolicy (ArgObject u) s = (Inr r, s')"
  shows "\<exists>opts a d r0. r = ArgObject opts \<and> customPayload opts = Val a
    \<and> graphOptionsCache s' (ident p) = Some d \<and> customPayload d = Val r0
    \<and> (graphName u = Null \<and> proxyExecuteKey e \<noteq> ''graph-name'' \<longrightarrow>
         entry s' a ''graph-name'' = callerEntry s (ArgObject u) ''graph-name'')
    \<and> (graphLanguage u = Null \<and> \<not> noGraphPayloadOptions u \<and> proxyExecuteKey e \<noteq> ''graph-language'' \<longrightarrow>
         entry s' a ''graph-language'' = callerEntry s (ArgObject u) ''graph-language'')
    \<and> (graphSource u = Null \<and> \<not> noGraphPayloadOptions u \<and> proxyExecuteKey e \<noteq> ''graph-source'' \<longrightarrow>
         entry s' a ''graph-source'' = callerEntry s (ArgObject u) ''graph-source'')
    \<and> (graphReadConsistency u = Null \<and> proxyExecuteKey e \<noteq> ''graph-read-consistency'' \<longrightarrow>
         entry s' a ''graph-read-consistency'' =
           (case entry s' r0 ''graph-read-consistency'' of
              Some b \<Rightarrow> Some b
            | None \<Rightarrow> callerEntry s (ArgObject u) ''graph-read-consistency''))
    \<and> (graphWriteConsistency u = Null \<and> proxyExecuteKey e \<noteq> ''graph-write-consistency'' \<longrightarrow>
         entry s' a ''graph-write-consistency'' =
           (case entry s' r0 ''graph-write-consistency'' of
              Some b \<Rightarrow> Some b
            | None \<Rightarrow> callerEntry s (ArgObject u) ''graph-write-consistency''))"
proof (cases "noGraphPayloadOptions u")
  case True
  from prof have prof': "getProfile profileManager (profileNameOf (ArgObject u)) = Some p"
    by simp
  have fast: "\<And>u'. ArgObject u = ArgObject u' \<Longrightarrow> noGraphPayloadOptions u'"
    using True by simp
  from run prof' fast obtain d
    where dflt: "getDefaultGraphOptions profileManager e baseOptions defaultRetryPolicy p s = (Inr d, s')"
      and r: "r = (case ArgObject u of
                ArgObject u \<Rightarrow> ArgObject ((utils_extend d u)\<lparr>customPayload := customPayload d\<rparr>)
              | _ \<Rightarrow> ArgObject d)"
    by (rule createQueryOptions_defaultsE) blast+
  have "defaultsOK e s' d" and cached: "graphOptionsCache s' (ident p) = Some d"
    using getDefaultGraphOptions_cacheOK [OF ok dflt] by simp_all
  then obtain r0 where "customPayload d = Val r0"
    unfolding defaultsOK_def by blast
  with r cached True show ?thesis
    by (simp add: noGraphPayloadOptions_def)
next
  case False
  from run prof False ok
  obtain d s1 a r0 opts readName writeName s6 s7 s8 s9 where
    dflt: "getDefaultGraphOptions profileManager e baseOptions defaultRetryPolicy p s = (Inr d, s1)"
    and d: "customPayload d = Val r0" "r0 < a"
    and opts: "opts = (utils_extend d u)\<lparr>customPayload := Val a\<rparr>" and r: "r = ArgObject opts"
    and frame: "\<And>k. k \<noteq> a \<Longrightarrow> payloads s' k = payloads s1 k"
    and rd: "getConsistencyName e (graphReadConsistency u) s6 = (Inr readName, s7)"
    and wr: "getConsistencyName e (graphWriteConsistency u) s8 = (Inr writeName, s9)"
    and k1: "proxyExecuteKey e \<noteq> ''graph-language'' \<Longrightarrow>
       entry s' a ''graph-language'' =
         resolvedEntry (map_js stringBytes (graphLanguage opts)) (entry s1 r0 ''graph-language'')
           (callerEntry s1 (ArgObject u) ''graph-language'')"
    and k2: "proxyExecuteKey e \<noteq> ''graph-source'' \<Longrightarrow>
       entry s' a ''graph-source'' =
         resolvedEntry (map_js stringBytes (graphSource opts)) (entry s1 r0 ''graph-source'')
           (callerEntry s1 (ArgObject u) ''graph-source'')"
    and k3: "proxyExecuteKey e \<noteq> ''graph-name'' \<Longrightarrow>
       entry s' a ''graph-name'' =
         resolvedEntry (map_js stringBytes (graphName u)) (entry s1 r0 ''graph-name'')
           (callerEntry s1 (ArgObject u) ''graph-name'')"
    and k4: "proxyExecuteKey e \<noteq> ''graph-read-consistency'' \<Longrightarrow>
       entry s' a ''graph-read-consistency'' =
         resolvedEntry (map_js stringBytes readName) (entry s1 r0 ''graph-read-consistency'')
           (callerEntry s1 (ArgObject u) ''graph-read-consistency'')"
    and k5: "proxyExecuteKey e \<noteq> ''graph-write-consistency'' \<Longrightarrow>
       entry s' a ''graph-write-consistency'' =
         resolvedEntry (map_js stringBytes writeName) (entry s1 r0 ''graph-write-consistency'')
           (callerEntry s1 (ArgObject u) ''graph-write-consistency'')"
    by (rule createQueryOptions_rebuilt) (rule that; assumption)
  have "afterCall e (ident p) s s1"
    using afterCall_getDefaultGraphOptions [of e p s profileManager baseOptions defaultRetryPolicy] dflt
    by simp
  with ex have own: "callerEntry s1 (ArgObject u) key = callerEntry s (ArgObject u) key" for key
    by (rule callerEntry_later)
  from d(2) have "r0 \<noteq> a" by simp
  then have inh: "entry s' r0 key = entry s1 r0 key" for key
    by (simp add: entry_def frame)
  have "laterState e s1 (snd (createQueryOptions profileManager e baseOptions defaultRetryPolicy (ArgObject u) s))"
    using prof dflt by (intro createQueryOptions_later) simp_all
  with run have "graphOptionsCache s' = graphOptionsCache s1"
    by (simp add: laterState_def)
  with getDefaultGraphOptions_cached [OF dflt]
  have cached: "graphOptionsCache s' (ident p) = Some d" by simp
  have c1: "entry s' a ''graph-name'' = callerEntry s (ArgObject u) ''graph-name''"
    if "graphName u = Null" "proxyExecuteKey e \<noteq> ''graph-name''"
    using k3 [OF that(2)] that(1) by (simp add: own del: callerEntry.simps)
  have c2: "entry s' a ''graph-language'' = callerEntry s (ArgObject u) ''graph-language''"
    if "graphLanguage u = Null" "proxyExecuteKey e \<noteq> ''graph-language''"
    using k1 [OF that(2)] that(1) by (simp add: own opts ifUndefined_def del: callerEntry.simps)
  have c3: "entry s' a ''graph-source'' = callerEntry s (ArgObject u) ''graph-source''"
    if "graphSource u = Null" "proxyExecuteKey e \<noteq> ''graph-source''"
    using k2 [OF that(2)] that(1) by (simp add: own opts ifUndefined_def del: callerEntry.simps)
  have c4: "entry s' a ''graph-read-consistency'' =
           (case entry s' r0 ''graph-read-consistency'' of
              Some b \<Rightarrow> Some b
            | None \<Rightarrow> callerEntry s (ArgObject u) ''graph-read-consistency'')"
    if "graphReadConsistency u = Null" "proxyExecuteKey e \<noteq> ''graph-read-consistency''"
  proof -
    from rd that(1) have "readName = Undefined"
      by (simp add: getConsistencyName_Null_result)
    with k4 [OF that(2)] show ?thesis by (simp add: own inh del: callerEntry.simps)
  qed
  have c5: "entry s' a ''graph-write-consistency'' =
           (case entry s' r0 ''graph-write-consistency'' of
              Some b \<Rightarrow> Some b
            | None \<Rightarrow> callerEntry s (ArgObject u) ''graph-write-consistency'')"
    if "graphWriteConsistency u = Null" "proxyExecuteKey e \<noteq> ''graph-write-consistency''"
  proof -
    from wr that(1) have "writeName = Undefined"
      by (simp add: getConsistencyName_Null_result)
    with k5 [OF that(2)] show ?thesis by (simp add: own inh del: callerEntry.simps)
  qed
  have "customPayload opts = Val a" by (simp add: opts)
  with r cached d(1) c1 c2 c3 c4 c5 show ?thesis
    by blast
qed

theorem null_suppresses_key_witness:
  "cacheOK driverEnv freshState
   \<and> getProfile clientProfiles (executionProfile callerOptions) = Some defaultProfile
   \<and> callerPayloadExists freshState (ArgObject callerOptions)
   \<and> clientCall (ArgObject callerOptions) freshState
       = (Inr (ArgObject callerResult), snd (clientCall (ArgObject callerOptions) freshState))
   \<and> graphName callerOptions = Null \<and> name clientBaseOptions = Val ''demo''
   \<and> entry (snd (clientCall (ArgObject callerOptions) freshState)) 1 ''graph-name'' = None"
proof -
  have h2: "getProfile clientProfiles (executionProfile callerOptions) = Some defaultProfile"
    by (simp add: clientProfiles_def callerOptions_def noOptions_def)
  have h3: "callerPayloadExists freshState (ArgObject callerOptions)"
    by (simp add: callerOptions_def noOptions_def)
  have h4: "clientCall (ArgObject callerOptions) freshState
       = (Inr (ArgObject callerResult), snd (clientCall (ArgObject callerOptions) freshState))"
    using clientCall_callerOptions by (rule run_pair)
  have own: "callerEntry freshState (ArgObject callerOptions) ''graph-name'' = None"
    and nul: "graphName callerOptions = Null" and px: "proxyExecuteKey driverEnv \<noteq> ''graph-name''"
    by (simp_all add: callerOptions_def noOptions_def proxyExecuteKey_driverEnv)
  from null_suppresses_key [OF cacheOK_freshState h2 h3 h4 [unfolded clientCall_def]]
  obtain opts a where "ArgObject callerResult = ArgObject opts" "customPayload opts = Val a"
    and "graphName callerOptions = Null \<and> proxyExecuteKey driverEnv \<noteq> ''graph-name'' \<longrightarrow>
         entry (snd (clientCall (ArgObject callerOptions) freshState)) a ''graph-name'' =
           callerEntry freshState (ArgObject callerOptions) ''graph-name''"
    unfolding clientCall_def by blast
  moreover from this(1,2) have "a = 1"
    by (auto simp: callerResult_def noOptions_def)
  ultimately have "entry (snd (clientCall (ArgObject callerOptions) freshState)) 1 ''graph-name'' = None"
    using own nul px by simp
  with h2 h3 h4 nul cacheOK_freshState [of driverEnv] show ?thesis
    by (simp add: clientBaseOptions_def)
qed

subsection \<open>The encoding of the read timeout\<close>

lemma rev_Long_toBuffer_nth:
  assumes "k < 8"
  shows "rev (Long_toBuffer w) ! k = ucast (drop_bit (8 * k) w)"
proof -
  from assms consider "k = 0" | "k = 1" | "k = 2" | "k = 3" | "k = 4" | "k = 5" | "k = 6" | "k = 7"
    by linarith
  then show ?thesis
    by cases (simp_all add: Long_toBuffer_def)
qed

lemma word_rcat_Long_toBuffer: "word_rcat (Long_toBuffer w) = w"
proof (rule bit_word_eqI)
  fix n assume "n < LENGTH(64)"
  then have n64: "n < 64" by simp
  then have d: "n div 8 < 8" by simp
  have len: "length (Long_toBuffer w) = 8" by (simp add: Long_toBuffer_def)
  have m: "8 * (n div 8) + n mod 8 = n" by simp
  have h: "bit (horner_sum uint 256 ws) n \<longleftrightarrow> n div 8 < length ws \<and> bit (ws ! (n div 8)) (n mod 8)"
    for ws :: "8 word list"
    using bit_horner_sum_uint_exp_iff [of ws n] by simp
  show "bit (word_rcat (Long_toBuffer w) :: 64 word) n = bit w n"
    using n64 d
    by (simp add: word_rcat_def bit_word_of_int_iff h len
        rev_Long_toBuffer_nth bit_ucast_iff bit_drop_bit_eq m)
qed

lemma readInt64BE_longBuffer:
  assumes "- (2 ^ 63) \<le> n" and "n < 2 ^ 63"
  shows "readInt64BE (longBuffer n) = n"
  using assms
  by (simp add: readInt64BE_def longBuffer_def word_rcat_Long_toBuffer Long_fromNumber_def
      sint_sbintrunc' signed_take_bit_int_eq_self)

lemma length_longBuffer: "length (longBuffer n) = 8"
  by (simp add: longBuffer_def Long_toBuffer_def)

lemma longBuffer_5000: "longBuffer 5000 = [0, 0, 0, 0, 0, 0, 19, 136]"
  by (simp add: longBuffer_def Long_toBuffer_def Long_fromNumber_def)

subsection \<open>The key of the read timeout\<close>

text \<open>
  C8, as the claim states it, fails: when the caller's own payload holds an entry
  \<open>request-timeout\<close> and the read timeout is 0, the clone keeps the entry, so the key is
  present although the resolved read timeout is not positive.
\<close>

theorem request_timeout_key_counterexample:
  "fst (clientCall (ArgObject (noOptions\<lparr>customPayload := Val 0, readTimeout := Val 0\<rparr>)) callerState)
     = Inr (ArgObject (noOptions\<lparr>customPayload := Val 2, graphLanguage := Val ''gremlin-groovy'',
          graphSource := Val ''g'', readTimeout := Val 0, retry := Val (RetryPolicy 7)\<rparr>))
   \<and> entry (snd (clientCall (ArgObject (noOptions\<lparr>customPayload := Val 0, readTimeout := Val 0\<rparr>)) callerState))
       2 ''request-timeout'' = Some [0, 0, 0, 0, 0, 0, 0, 9]"
  by (simp add: run_simps callerState_def)

text \<open>
  C8, amended. When the profile is found and the call returns, the payload of the result
  holds under \<open>request-timeout\<close> the encoded read timeout when the resolved read timeout is
  above zero, and otherwise only what the caller's own payload held under that key, so
  nothing when the caller supplied no such entry. The encoded value has 8 bytes and reads
  back, big end first and as a signed 64-bit integer, as the number of milliseconds; 5000
  is encoded as the bytes 0 0 0 0 0 0 19 136. (The proxy-execute key of the driver is
  taken not to be \<open>request-timeout\<close>, the caller's payload an object that exists, and the
  cache to hold only what \<open>createDefaultOptions\<close> built.)
\<close>

theorem request_timeout_key:
  assumes "cacheOK e s" and "proxyExecuteKey e \<noteq> ''request-timeout''"
    and "getProfile profileManager (profileNameOf arg) = Some p"
    and "callerPayloadExists s arg"
    and "createQueryOptions profileManager e baseOptions defaultRetryPolicy arg s = (Inr r, s')"
  shows "(\<exists>opts a. r = ArgObject opts \<and> customPayload opts = Val a
       \<and> entry s' a ''request-timeout'' =
           (case timeoutEntry (readTimeout opts) of
              Some b \<Rightarrow> Some b
            | None \<Rightarrow> callerEntry s arg ''request-timeout''))
    \<and> (\<forall>t. timeoutEntry t = (if greaterThanZero t then map_option longBuffer (case t of Val n \<Rightarrow> Some n | _ \<Rightarrow> None) else None))
    \<and> (\<forall>n. length (longBuffer n) = 8)
    \<and> (\<forall>n. - (2 ^ 63) \<le> n \<and> n < 2 ^ 63 \<longrightarrow> readInt64BE (longBuffer n) = n)
    \<and> longBuffer 5000 = [0, 0, 0, 0, 0, 0, 19, 136]"
proof -
  have "timeoutEntry t = (if greaterThanZero t then map_option longBuffer (case t of Val n \<Rightarrow> Some n | _ \<Rightarrow> None) else None)"
    for t
    by (cases t) (simp_all add: timeoutEntry_def)
  with request_timeout_entry [OF assms] show ?thesis
    by (simp add: length_longBuffer readInt64BE_longBuffer longBuffer_5000)
qed

theorem request_timeout_key_witness:
  "cacheOK driverEnv freshState \<and> proxyExecuteKey driverEnv \<noteq> ''request-timeout''
   \<and> getProfile clientProfiles (profileNameOf (ArgObject callerOptions)) = Some defaultProfile
   \<and> callerPayloadExists freshState (ArgObject callerOptions)
   \<and> clientCall (ArgObject callerOptions) freshState
       = (Inr (ArgObject callerResult), snd (clientCall (ArgObject callerOptions) freshState))
   \<and> readTimeout callerResult = Val 5000
   \<and> entry (snd (clientCall (ArgObject callerOptions) freshState)) 1 ''request-timeout''
       = Some [0, 0, 0, 0, 0, 0, 19, 136]
   \<and> readInt64BE [0, 0, 0, 0, 0, 0, 19, 136] = 5000"
proof -
  have h2: "proxyExecuteKey driverEnv \<noteq> ''request-timeout''"
    by (simp add: proxyExecuteKey_driverEnv)
  have h3: "getProfile clientProfiles (profileNameOf (ArgObject callerOptions)) = Some defaultProfile"
    by (simp add: clientProfiles_def callerOptions_def noOptions_def)
  have h4: "callerPayloadExists freshState (ArgObject callerOptions)"
    by (simp add: callerOptions_def noOptions_def)
  have h5: "clientCall (ArgObject callerOptions) freshState
       = (Inr (ArgObject callerResult), snd (clientCall (ArgObject callerOptions) freshState))"
    using clientCall_callerOptions by (rule run_pair)
  have rt: "readTimeout callerResult = Val 5000"
    by (simp add: callerResult_def noOptions_def)
  note k = request_timeout_key [OF cacheOK_freshState h2 h3 h4 h5 [unfolded clientCall_def]]
  from k obtain opts a where "ArgObject callerResult = ArgObject opts" "customPayload opts = Val a"
    and "entry (snd (clientCall (ArgObject callerOptions) freshState)) a ''request-timeout'' =
           (case timeoutEntry (readTimeout opts) of
              Some b \<Rightarrow> Some b
            | None \<Rightarrow> callerEntry freshState (ArgObject callerOptions) ''request-timeout'')"
    unfolding clientCall_def by blast
  moreover from this(1,2) have "a = 1" "opts = callerResult"
    by (auto simp: callerResult_def noOptions_def)
  moreover from k have enc: "longBuffer 5000 = [0, 0, 0, 0, 0, 0, 19, 136]"
    and "- (2 ^ 63) \<le> (5000 :: int) \<and> (5000 :: int) < 2 ^ 63 \<longrightarrow> readInt64BE (longBuffer 5000) = 5000"
    by blast+
  ultimately have "entry (snd (clientCall (ArgObject callerOptions) freshState)) 1 ''request-timeout''
       = Some [0, 0, 0, 0, 0, 0, 19, 136]"
    and "readInt64BE [0, 0, 0, 0, 0, 0, 19, 136] = 5000"
    using rt by (simp_all add: timeoutEntry_def)
  with h2 h3 h4 h5 rt cacheOK_freshState [of driverEnv] show ?thesis
    by simp
qed

subsection \<open>An unknown consistency level\<close>

lemma namesLoaded_createQueryOptions:
  "namesLoaded e s \<Longrightarrow> namesLoaded e (snd (createQueryOptions pm e baseOptions drp arg s))"
  using afterCall_createQueryOptions [of e pm arg s baseOptions drp]
  by (rule namesLoaded_afterCall [rotated])

text \<open>
  C7, as the claim states it, fails: the first graph query of a process, made with the
  unknown consistency 99, throws, and yet the consistency names have been loaded and the
  defaults of the profile have been cached on the way.
\<close>

theorem unknown_consistency_level_counterexample:
  "fst (clientCall (ArgObject (noOptions\<lparr>graphReadConsistency := Val 99\<rparr>)) freshState)
     = Inl (UnknownConsistencyLevel 99)
   \<and> consistencyNames freshState = None
   \<and> consistencyNames (snd (clientCall (ArgObject (noOptions\<lparr>graphReadConsistency := Val 99\<rparr>)) freshState))
       = Some (loadedNames driverEnv)
   \<and> graphOptionsCache freshState 0 = None
   \<and> graphOptionsCache (snd (clientCall (ArgObject (noOptions\<lparr>graphReadConsistency := Val 99\<rparr>)) freshState)) 0
       = Some clientDefaults"
  by (simp add: run_simps freshState_def)

text \<open>
  C7, amended. \<open>getConsistencyName\<close> throws exactly when the consistency is a number that
  is no code of \<open>types.consistencies\<close>, and then it throws UnknownConsistencyLevel with
  that number. Such a number as \<open>graphReadConsistency\<close> of the call, or as
  \<open>graphWriteConsistency\<close> when the read consistency is fine, makes \<open>createQueryOptions\<close>
  throw that error to its caller (once the defaults of the profile are there). Whatever a
  call does, it leaves the shared state sound for the calls after it: the consistency
  names are as they were or have been loaded from the table, every entry of the cache is
  kept and at most the entry of the profile of the call is added, every payload object
  that existed is as it was, and the cache still holds only what \<open>createDefaultOptions\<close>
  built.
\<close>

theorem unknown_consistency_level:
  assumes "wellFormedTable e" and "namesLoaded e s" and "cacheOK e s"
  shows "((\<exists>err. fst (getConsistencyName e c s) = Inl err) \<longleftrightarrow> unregistered e c)
    \<and> (\<forall>code. c = Val code \<and> unregistered e c \<longrightarrow>
          fst (getConsistencyName e c s) = Inl (UnknownConsistencyLevel code))
    \<and> (\<forall>p code. getProfile profileManager (executionProfile u) = Some p
          \<and> (\<exists>d s1. getDefaultGraphOptions profileManager e baseOptions defaultRetryPolicy p s = (Inr d, s1))
          \<and> (graphReadConsistency u = Val code \<and> unregistered e (graphReadConsistency u)
              \<or> \<not> unregistered e (graphReadConsistency u)
                \<and> graphWriteConsistency u = Val code \<and> unregistered e (graphWriteConsistency u)) \<longrightarrow>
          fst (createQueryOptions profileManager e baseOptions defaultRetryPolicy (ArgObject u) s)
            = Inl (UnknownConsistencyLevel code))
    \<and> namesLoaded e (snd (createQueryOptions profileManager e baseOptions defaultRetryPolicy arg s))
    \<and> cacheOK e (snd (createQueryOptions profileManager e baseOptions defaultRetryPolicy arg s))
    \<and> afterCall e (case getProfile profileManager (profileNameOf arg) of Some p \<Rightarrow> ident p | None \<Rightarrow> 0) s
         (snd (createQueryOptions profileManager e baseOptions defaultRetryPolicy arg s))"
proof -
  note res = getConsistencyName_result [OF assms(1,2), of c]
  have thrown: "(\<exists>err. fst (getConsistencyName e c s) = Inl err) \<longleftrightarrow> unregistered e c"
  proof (cases "unregistered e c")
    case True
    with res show ?thesis by auto
  next
    case False
    with res obtain n s' where "getConsistencyName e c s = (Inr n, s')" by auto
    with False show ?thesis by simp
  qed
  have which: "fst (getConsistencyName e c s) = Inl (UnknownConsistencyLevel code)"
    if "c = Val code" "unregistered e c" for code
    using res that by auto
  have up: "fst (createQueryOptions profileManager e baseOptions defaultRetryPolicy (ArgObject u) s)
            = Inl (UnknownConsistencyLevel code)"
    if prof: "getProfile profileManager (executionProfile u) = Some p"
      and dflt: "getDefaultGraphOptions profileManager e baseOptions defaultRetryPolicy p s = (Inr d, s1)"
      and bad: "graphReadConsistency u = Val code \<and> unregistered e (graphReadConsistency u)
              \<or> \<not> unregistered e (graphReadConsistency u)
                \<and> graphWriteConsistency u = Val code \<and> unregistered e (graphWriteConsistency u)"
    for p code d s1
    using unknown_propagates [OF assms prof dflt] bad by auto
  from thrown which up show ?thesis
    using namesLoaded_createQueryOptions [OF assms(2)] cacheOK_createQueryOptions [OF assms(3)]
      afterCall_createQueryOptions
    by blast
qed

theorem unknown_consistency_level_witness:
  "wellFormedTable driverEnv \<and> namesLoaded driverEnv freshState \<and> cacheOK driverEnv freshState
   \<and> unregistered driverEnv (Val 99) \<and> \<not> unregistered driverEnv (Val 6)
   \<and> fst (getConsistencyName driverEnv (Val 99) freshState) = Inl (UnknownConsistencyLevel 99)
   \<and> fst (getConsistencyName driverEnv (Val 6) freshState) \<noteq> Inl (UnknownConsistencyLevel 6)
   \<and> fst (clientCall (ArgObject (noOptions\<lparr>graphReadConsistency := Val 99\<rparr>)) freshState)
       = Inl (UnknownConsistencyLevel 99)
   \<and> namesLoaded driverEnv (snd (clientCall (ArgObject (noOptions\<lparr>graphReadConsistency := Val 99\<rparr>)) freshState))
   \<and> cacheOK driverEnv (snd (clientCall (ArgObject (noOptions\<lparr>graphReadConsistency := Val 99\<rparr>)) freshState))"
proof -
  have u99: "unregistered driverEnv (Val 99)" and u6: "\<not> unregistered driverEnv (Val 6)"
    by (simp_all add: unregistered_def driverEnv_def)
  have prof: "getProfile clientProfiles (executionProfile (noOptions\<lparr>graphReadConsistency := Val 99\<rparr>))
      = Some defaultProfile"
    by (simp add: clientProfiles_def noOptions_def)
  note t = unknown_consistency_level [OF wellFormedTable_driverEnv namesLoaded_freshState cacheOK_freshState,
      where profileManager = clientProfiles and baseOptions = clientBaseOptions
        and defaultRetryPolicy = "Val (RetryPolicy 7)"]
  from t [where c = "Val 99"] u99
  have a: "fst (getConsistencyName driverEnv (Val 99) freshState) = Inl (UnknownConsistencyLevel 99)"
    by blast
  from t [where c = "Val 6"] u6
  have b: "fst (getConsistencyName driverEnv (Val 6) freshState) \<noteq> Inl (UnknownConsistencyLevel 6)"
    by blast
  from t [where u = "noOptions\<lparr>graphReadConsistency := Val 99\<rparr>"
      and arg = "ArgObject (noOptions\<lparr>graphReadConsistency := Val 99\<rparr>)"] prof defaults_freshState u99
  have c: "fst (clientCall (ArgObject (noOptions\<lparr>graphReadConsistency := Val 99\<rparr>)) freshState)
       = Inl (UnknownConsistencyLevel 99)"
    and d: "namesLoaded driverEnv (snd (clientCall (ArgObject (noOptions\<lparr>graphReadConsistency := Val 99\<rparr>)) freshState))"
    and e: "cacheOK driverEnv (snd (clientCall (ArgObject (noOptions\<lparr>graphReadConsistency := Val 99\<rparr>)) freshState))"
    unfolding clientCall_def by (simp_all add: noOptions_def)
  from a b c d e u99 u6 wellFormedTable_driverEnv namesLoaded_freshState [of driverEnv]
    cacheOK_freshState [of driverEnv]
  show ?thesis by simp
qed

end
